theory Spec2Isabelle
  imports Complex_Main "HOL-Library.Log_Nat" "HOL-Library.Code_Target_Numeral"
begin

section \<open>JavaScript numbers\<close>

text \<open>
  The API route and the worker compute on JavaScript numbers: IEEE 754 binary64 values.
  A finite number is carried by its exact rational value; every arithmetic operation
  computes the exact result and rounds it to the nearest binary64 value, ties to even
  (\<open>fl\<close>). The sign of zero is not represented: \<open>-0\<close> and \<open>0\<close> behave alike
  in every test the two programs make (\<open>!x\<close>, \<open>x <= 0\<close>, \<open>Number.isFinite\<close>).
\<close>

datatype jsnum = NaN | PInf | NInf | Fin rat

definition pow2 :: "int \<Rightarrow> rat" where
  "pow2 e = (if 0 \<le> e then 2 ^ nat e else 1 / 2 ^ nat (- e))"

definition pow10 :: "int \<Rightarrow> rat" where
  "pow10 e = (if 0 \<le> e then 10 ^ nat e else 1 / 10 ^ nat (- e))"

text \<open>\<open>ilog2 x\<close> is the binary exponent of \<open>x \<noteq> 0\<close>: \<open>2 ^ ilog2 x \<le> \<bar>x\<bar> < 2 ^ (ilog2 x + 1)\<close>.\<close>

definition ilog2 :: "rat \<Rightarrow> int" where
  "ilog2 x = (if 1 \<le> \<bar>x\<bar> then bitlen \<lfloor>\<bar>x\<bar>\<rfloor> - 1
              else - bitlen (- \<lfloor>- (1 / \<bar>x\<bar>)\<rfloor> - 1))"

definition round_half_even :: "rat \<Rightarrow> int" where
  "round_half_even y =
     (let f = \<lfloor>y\<rfloor>; r = y - of_int f
      in if r < 1 / 2 then f else if 1 / 2 < r then f + 1 else if even f then f else f + 1)"

text \<open>
  Rounding to binary64: 53 significant bits, the exponent no smaller than \<open>-1022\<close>
  (subnormal numbers share the spacing \<open>2 ^ -1074\<close>), overflow to an infinity.
\<close>

definition fl :: "rat \<Rightarrow> jsnum" where
  "fl x = (if x = 0 then Fin 0 else
     let e = max (ilog2 x) (- 1022);
         q = pow2 (e - 52);
         r = of_int (round_half_even (x / q)) * q
     in if pow2 1024 \<le> \<bar>r\<bar> then (if 0 < r then PInf else NInf) else Fin r)"

fun js_mul :: "jsnum \<Rightarrow> jsnum \<Rightarrow> jsnum" where
  "js_mul NaN b = NaN"
| "js_mul a NaN = NaN"
| "js_mul (Fin x) (Fin y) = fl (x * y)"
| "js_mul (Fin x) PInf = (if x = 0 then NaN else if 0 < x then PInf else NInf)"
| "js_mul (Fin x) NInf = (if x = 0 then NaN else if 0 < x then NInf else PInf)"
| "js_mul PInf (Fin y) = (if y = 0 then NaN else if 0 < y then PInf else NInf)"
| "js_mul NInf (Fin y) = (if y = 0 then NaN else if 0 < y then NInf else PInf)"
| "js_mul PInf PInf = PInf"
| "js_mul PInf NInf = NInf"
| "js_mul NInf PInf = NInf"
| "js_mul NInf NInf = PInf"

fun js_add :: "jsnum \<Rightarrow> jsnum \<Rightarrow> jsnum" where
  "js_add NaN b = NaN"
| "js_add a NaN = NaN"
| "js_add (Fin x) (Fin y) = fl (x + y)"
| "js_add (Fin x) PInf = PInf"
| "js_add (Fin x) NInf = NInf"
| "js_add PInf (Fin y) = PInf"
| "js_add NInf (Fin y) = NInf"
| "js_add PInf PInf = PInf"
| "js_add PInf NInf = NaN"
| "js_add NInf PInf = NaN"
| "js_add NInf NInf = NInf"

fun js_div :: "jsnum \<Rightarrow> jsnum \<Rightarrow> jsnum" where
  "js_div NaN b = NaN"
| "js_div a NaN = NaN"
| "js_div (Fin x) (Fin y) =
     (if y = 0 then (if x = 0 then NaN else if 0 < x then PInf else NInf) else fl (x / y))"
| "js_div (Fin x) PInf = Fin 0"
| "js_div (Fin x) NInf = Fin 0"
| "js_div PInf (Fin y) = (if 0 \<le> y then PInf else NInf)"
| "js_div NInf (Fin y) = (if 0 \<le> y then NInf else PInf)"
| "js_div PInf PInf = NaN"
| "js_div PInf NInf = NaN"
| "js_div NInf PInf = NaN"
| "js_div NInf NInf = NaN"

text \<open>\<open>a < b\<close> on numbers: every comparison with \<open>NaN\<close> is false.\<close>

fun js_lt :: "jsnum \<Rightarrow> jsnum \<Rightarrow> bool" where
  "js_lt NaN b = False"
| "js_lt a NaN = False"
| "js_lt (Fin x) (Fin y) = (x < y)"
| "js_lt (Fin x) PInf = True"
| "js_lt (Fin x) NInf = False"
| "js_lt PInf b = False"
| "js_lt NInf NInf = False"
| "js_lt NInf b = True"

text \<open>\<open>a <= b\<close> and \<open>a > b\<close>.\<close>

definition js_le :: "jsnum \<Rightarrow> jsnum \<Rightarrow> bool" where
  "js_le a b = (a \<noteq> NaN \<and> b \<noteq> NaN \<and> \<not> js_lt b a)"

definition js_gt :: "jsnum \<Rightarrow> jsnum \<Rightarrow> bool" where
  "js_gt a b = js_lt b a"

fun Number_isFinite :: "jsnum \<Rightarrow> bool" where
  "Number_isFinite (Fin x) = True"
| "Number_isFinite a = False"

text \<open>\<open>Math.round\<close>: the nearest integer, a tie going towards \<open>+\<infinity>\<close>.\<close>

fun Math_round :: "jsnum \<Rightarrow> jsnum" where
  "Math_round (Fin x) = Fin (of_int \<lfloor>x + 1 / 2\<rfloor>)"
| "Math_round a = a"

text \<open>A decimal literal of the source text denotes the binary64 value nearest to it.\<close>

definition lit_0_18 :: jsnum where
  "lit_0_18 = fl (18 / 100)"

definition lit_999999_9999 :: jsnum where
  "lit_999999_9999 = fl (9999999999 / 10000)"

section \<open>Numbers and strings\<close>

text \<open>
  \<open>Number(s)\<close> on a string (the StringToNumber conversion): surrounding white space is
  dropped, the empty string is \<open>0\<close>, then a binary, octal or hexadecimal integer, or an
  optionally signed \<open>Infinity\<close> or decimal literal with optional fraction and exponent;
  everything else is \<open>NaN\<close>. A string is the list of the bytes of its UTF-8 encoding,
  so the white space of the language (TAB, LF, VT, FF, CR, SP, U+00A0, U+1680,
  U+2000 to U+200A, U+2028, U+2029, U+202F, U+205F, U+3000, U+FEFF) is a list of byte
  sequences, stripped from the front and, read backwards, from the end.
\<close>

definition is_digit :: "char \<Rightarrow> bool" where
  "is_digit c = (c \<in> set ''0123456789'')"

definition white_space :: "string list" where
  "white_space =
     [ [CHR 0x09], [CHR 0x0A], [CHR 0x0B], [CHR 0x0C], [CHR 0x0D], [CHR 0x20],
       [CHR 0xC2, CHR 0xA0],
       [CHR 0xE1, CHR 0x9A, CHR 0x80],
       [CHR 0xE2, CHR 0x80, CHR 0x80], [CHR 0xE2, CHR 0x80, CHR 0x81],
       [CHR 0xE2, CHR 0x80, CHR 0x82], [CHR 0xE2, CHR 0x80, CHR 0x83],
       [CHR 0xE2, CHR 0x80, CHR 0x84], [CHR 0xE2, CHR 0x80, CHR 0x85],
       [CHR 0xE2, CHR 0x80, CHR 0x86], [CHR 0xE2, CHR 0x80, CHR 0x87],
       [CHR 0xE2, CHR 0x80, CHR 0x88], [CHR 0xE2, CHR 0x80, CHR 0x89],
       [CHR 0xE2, CHR 0x80, CHR 0x8A],
       [CHR 0xE2, CHR 0x80, CHR 0xA8], [CHR 0xE2, CHR 0x80, CHR 0xA9],
       [CHR 0xE2, CHR 0x80, CHR 0xAF],
       [CHR 0xE2, CHR 0x81, CHR 0x9F],
       [CHR 0xE3, CHR 0x80, CHR 0x80],
       [CHR 0xEF, CHR 0xBB, CHR 0xBF] ]"

text \<open>Dropping from the front of \<open>s\<close> every leading occurrence of one of the sequences.\<close>

function strip_front :: "string list \<Rightarrow> string \<Rightarrow> string" where
  "strip_front ws s =
     (case find (\<lambda>p. p \<noteq> [] \<and> take (length p) s = p) ws of
        None \<Rightarrow> s
      | Some p \<Rightarrow> strip_front ws (drop (length p) s))"
  by pat_completeness auto
termination
proof (relation "measure (\<lambda>(ws, s). length s)")
  show "wf (measure (\<lambda>(ws, s). length s))"
    by simp
next
  fix ws :: "string list" and s p :: string
  assume "find (\<lambda>p. p \<noteq> [] \<and> take (length p) s = p) ws = Some p"
  then have p: "p \<noteq> []" and t: "take (length p) s = p"
    by (auto simp: find_Some_iff)
  from t have "length (take (length p) s) = length p"
    by simp
  then have "length p \<le> length s"
    by simp
  moreover from p have "0 < length p"
    by simp
  ultimately have "length s - length p < length s"
    by arith
  then show "((ws, drop (length p) s), (ws, s)) \<in> measure (\<lambda>(ws, s). length s)"
    by simp
qed

declare strip_front.simps [simp del]

definition trim :: "string \<Rightarrow> string" where
  "trim s = rev (strip_front (map rev white_space) (rev (strip_front white_space s)))"

definition digit_val :: "char \<Rightarrow> nat" where
  "digit_val c =
     (if c \<in> set ''0123456789'' then of_char c - 48
      else if c \<in> set ''abcdef'' then of_char c - 87
      else of_char c - 55)"

definition radix_value :: "nat \<Rightarrow> string \<Rightarrow> nat" where
  "radix_value b s = foldl (\<lambda>a c. b * a + digit_val c) 0 s"

definition non_decimal :: "string \<Rightarrow> nat option" where
  "non_decimal t =
     (case t of
        z # x # ds \<Rightarrow>
          if z = CHR ''0'' \<and> ds \<noteq> [] then
            (if x \<in> set ''xX'' \<and> list_all (\<lambda>c. c \<in> set ''0123456789abcdefABCDEF'') ds
               then Some (radix_value 16 ds)
             else if x \<in> set ''oO'' \<and> list_all (\<lambda>c. c \<in> set ''01234567'') ds
               then Some (radix_value 8 ds)
             else if x \<in> set ''bB'' \<and> list_all (\<lambda>c. c \<in> set ''01'') ds
               then Some (radix_value 2 ds)
             else None)
          else None
      | _ \<Rightarrow> None)"

definition exponent_part :: "string \<Rightarrow> int option" where
  "exponent_part r =
     (case r of
        [] \<Rightarrow> Some 0
      | c # t \<Rightarrow>
          if c \<in> set ''eE'' then
            (let neg = (t \<noteq> [] \<and> hd t = CHR ''-'');
                 ds = (if t \<noteq> [] \<and> hd t \<in> set ''+-'' then tl t else t)
             in if ds \<noteq> [] \<and> list_all is_digit ds
                then Some (if neg then - int (radix_value 10 ds) else int (radix_value 10 ds))
                else None)
          else None)"

definition decimal_value :: "string \<Rightarrow> rat option" where
  "decimal_value u =
     (let ip = takeWhile is_digit u;
          r1 = dropWhile is_digit u;
          dot = (r1 \<noteq> [] \<and> hd r1 = CHR ''.'');
          fp = (if dot then takeWhile is_digit (tl r1) else []);
          r2 = (if dot then dropWhile is_digit (tl r1) else r1)
      in if ip = [] \<and> fp = [] then None
         else case exponent_part r2 of
                None \<Rightarrow> None
              | Some e \<Rightarrow> Some (of_nat (radix_value 10 (ip @ fp)) * pow10 (e - int (length fp))))"

definition js_Number :: "string \<Rightarrow> jsnum" where
  "js_Number s =
     (let t = trim s in
      if t = [] then Fin 0
      else case non_decimal t of
             Some n \<Rightarrow> fl (of_nat n)
           | None \<Rightarrow>
               (let neg = (hd t = CHR ''-'');
                    u = (if hd t \<in> set ''+-'' then tl t else t)
                in if u = ''Infinity'' then (if neg then NInf else PInf)
                   else case decimal_value u of
                          None \<Rightarrow> NaN
                        | Some v \<Rightarrow> fl (if neg then - v else v)))"

text \<open>
  \<open>x.toString()\<close> on a number: the shortest decimal digit string \<open>s\<close> (with \<open>k\<close>
  digits and decimal exponent \<open>n\<close>) that converts back to \<open>x\<close>, laid out in fixed
  notation when \<open>-6 < n \<le> 21\<close> and in exponent notation otherwise. Of two strings of
  the same length the one nearer to \<open>x\<close> is taken; seventeen digits always suffice.
\<close>

definition ilog10 :: "rat \<Rightarrow> int" where
  "ilog10 x = (if 1 \<le> x then int (floorlog 10 (nat \<lfloor>x\<rfloor>)) - 1
               else - int (floorlog 10 (nat (- \<lfloor>- (1 / x)\<rfloor> - 1))))"

definition digit_cand :: "rat \<Rightarrow> int \<Rightarrow> nat \<Rightarrow> int option" where
  "digit_cand x n0 k =
     (let sc = x * pow10 (int k - n0);
          lo = \<lfloor>sc\<rfloor>;
          hi = lo + 1;
          ok_lo = (fl (of_int lo * pow10 (n0 - int k)) = Fin x);
          ok_hi = (fl (of_int hi * pow10 (n0 - int k)) = Fin x)
      in if ok_lo \<and> ok_hi then
           Some (if sc - of_int lo < of_int hi - sc then lo
                 else if of_int hi - sc < sc - of_int lo then hi
                 else if even lo then lo else hi)
         else if ok_lo then Some lo
         else if ok_hi then Some hi
         else None)"

function digit_search :: "rat \<Rightarrow> int \<Rightarrow> nat \<Rightarrow> int \<times> nat" where
  "digit_search x n0 k =
     (if 17 < k then (\<lfloor>x * pow10 (int k - n0)\<rfloor>, k)
      else case digit_cand x n0 k of
             Some s \<Rightarrow> (s, k)
           | None \<Rightarrow> digit_search x n0 (Suc k))"
  by pat_completeness auto
termination
  by (relation "measure (\<lambda>(x, n0, k). 18 - k)") auto

declare digit_search.simps [simp del]

function dec_string :: "nat \<Rightarrow> string" where
  "dec_string n =
     (if n < 10 then [''0123456789'' ! n]
      else dec_string (n div 10) @ [''0123456789'' ! (n mod 10)])"
  by pat_completeness auto
termination
  by (relation "measure id") auto

declare dec_string.simps [simp del]

definition exponent_string :: "int \<Rightarrow> string" where
  "exponent_string e = (if 0 \<le> e then ''+'' else ''-'') @ dec_string (nat \<bar>e\<bar>)"

definition layout :: "string \<Rightarrow> int \<Rightarrow> string" where
  "layout ds n =
     (let k = int (length ds) in
      if k \<le> n \<and> n \<le> 21 then ds @ replicate (nat (n - k)) CHR ''0''
      else if 0 < n \<and> n \<le> 21 then take (nat n) ds @ ''.'' @ drop (nat n) ds
      else if - 6 < n \<and> n \<le> 0 then ''0.'' @ replicate (nat (- n)) CHR ''0'' @ ds
      else if k = 1 then ds @ ''e'' @ exponent_string (n - 1)
      else take 1 ds @ ''.'' @ drop 1 ds @ ''e'' @ exponent_string (n - 1))"

definition positive_string :: "rat \<Rightarrow> string" where
  "positive_string x =
     (let n0 = ilog10 x + 1 in
      case digit_search x n0 1 of
        (s, k) \<Rightarrow> if s = 10 ^ k then layout (dec_string (10 ^ (k - 1))) (n0 + 1)
                  else layout (dec_string (nat s)) n0)"

fun js_toString :: "jsnum \<Rightarrow> string" where
  "js_toString NaN = ''NaN''"
| "js_toString PInf = ''Infinity''"
| "js_toString NInf = ''-Infinity''"
| "js_toString (Fin x) =
     (if x = 0 then ''0''
      else if x < 0 then ''-'' @ positive_string (- x)
      else positive_string x)"

section \<open>Values, documents and the shared services\<close>

text \<open>
  Values of a parsed request body and of the JSON documents kept in the cache. Arrays and
  nested objects do not occur in the documents the two programs build.
\<close>

datatype jsval = JUndefined | JNull | JBool bool | JNum jsnum | JStr string

type_synonym json = "(string \<times> jsval) list"

text \<open>\<open>!v\<close> is \<open>\<not> truthy v\<close>.\<close>

fun truthy :: "jsval \<Rightarrow> bool" where
  "truthy JUndefined = False"
| "truthy JNull = False"
| "truthy (JBool b) = b"
| "truthy (JNum a) = (a \<noteq> NaN \<and> a \<noteq> Fin 0)"
| "truthy (JStr s) = (s \<noteq> [])"

fun ToNumber :: "jsval \<Rightarrow> jsnum" where
  "ToNumber JUndefined = NaN"
| "ToNumber JNull = Fin 0"
| "ToNumber (JBool b) = (if b then Fin 1 else Fin 0)"
| "ToNumber (JNum a) = a"
| "ToNumber (JStr s) = js_Number s"

fun ToString :: "jsval \<Rightarrow> string" where
  "ToString JUndefined = ''undefined''"
| "ToString JNull = ''null''"
| "ToString (JBool b) = (if b then ''true'' else ''false'')"
| "ToString (JNum a) = js_toString a"
| "ToString (JStr s) = s"

text \<open>\<open>JSON.stringify\<close> writes a number that is not finite as \<open>null\<close>.\<close>

definition json_number :: "jsnum \<Rightarrow> jsval" where
  "json_number a = (if Number_isFinite a then JNum a else JNull)"

text \<open>Setting a property of an object literal: an existing key keeps its place.\<close>

fun obj_set :: "string \<Rightarrow> jsval \<Rightarrow> json \<Rightarrow> json" where
  "obj_set k v [] = [(k, v)]"
| "obj_set k v (p # ps) = (if fst p = k then (k, v) # ps else p # obj_set k v ps)"

text \<open>The table \<open>orders\<close> of the schema; timestamps are seconds.\<close>

datatype order_status = processing | completed | failed

record order_row =
  row_id :: nat
  order_id :: string
  amount :: jsnum
  tax :: jsnum
  total :: jsnum
  status :: order_status
  created_at :: nat
  updated_at :: nat
  processed_at :: "nat option"

text \<open>
  The table's collation is \<open>utf8mb4_unicode_ci\<close>: the unique key on \<open>order_id\<close> and
  the comparison \<open>order_id = ?\<close> ignore letter case and trailing spaces. \<open>key_of\<close> gives
  the compared form of a (byte) string; what the collation does beyond ASCII is left out.
\<close>

definition lower :: "char \<Rightarrow> char" where
  "lower c = (if c \<in> set ''ABCDEFGHIJKLMNOPQRSTUVWXYZ'' then char_of (of_char c + (32::nat)) else c)"

definition key_of :: "string \<Rightarrow> string" where
  "key_of s = map lower (rev (dropWhile (\<lambda>c. c = CHR '' '') (rev s)))"

fun find_row :: "string \<Rightarrow> order_row list \<Rightarrow> order_row option" where
  "find_row k [] = None"
| "find_row k (r # rs) = (if key_of (order_id r) = key_of k then Some r else find_row k rs)"

record cache_entry =
  payload :: json
  expires_at :: nat

datatype log_line =
    LogQueued string jsnum
  | LogCreateError
  | LogRetrieving string
  | LogServedFromCache string
  | LogCacheReadError string
  | LogCacheMiss string
  | LogCached string
  | LogCacheWriteFailed string
  | LogServedFromDatabase string
  | LogRetrieveError string
  | LogShutdownRequested
  | LogProcessingMessage nat
  | LogInvalidData
  | LogInvalidAmount string string
  | LogProcessingOrder string jsnum jsnum jsnum
  | LogProcessed string
  | LogLoopError nat
  | LogTooManyErrors
  | LogWaiting nat
  | LogFatal
  | LogRestart

text \<open>
  The state the API and the worker share: the Redis keys, the Redis stream
  \<open>orders_stream\<close> (an entry is its position and its flat field list), the MySQL table
  with its \<open>AUTO_INCREMENT\<close> counter, the console, and the number of Redis and MySQL
  calls issued so far.
\<close>

record world =
  cache :: "string \<rightharpoonup> cache_entry"
  stream :: "(nat \<times> string list) list"
  orders :: "order_row list"
  auto_increment :: nat
  console :: "log_line list"
  io :: nat

text \<open>
  What the programs do not decide: whether the \<open>k\<close>-th call to Redis or MySQL throws,
  what the clock reads at that point, whether the shutdown flag \<open>isShuttingDown\<close> has
  been raised by then, and how \<open>toISOString\<close> prints a time.
\<close>

record host =
  fails :: "nat \<Rightarrow> bool"
  clock :: "nat \<Rightarrow> nat"
  shutdown :: "nat \<Rightarrow> bool"
  iso :: "nat \<Rightarrow> string"

datatype 'a outcome = Threw | Returned 'a

definition tick :: "world \<Rightarrow> world" where
  "tick w = w\<lparr>io := Suc (io w)\<rparr>"

definition say :: "log_line \<Rightarrow> world \<Rightarrow> world" where
  "say l w = w\<lparr>console := console w @ [l]\<rparr>"

definition now :: "host \<Rightarrow> world \<Rightarrow> nat" where
  "now h w = clock h (io w)"

definition redis_get :: "host \<Rightarrow> string \<Rightarrow> world \<Rightarrow> json option outcome \<times> world" where
  "redis_get h k w =
     (if fails h (io w) then (Threw, tick w)
      else (Returned (case cache w k of
                        None \<Rightarrow> None
                      | Some e \<Rightarrow> if now h w < expires_at e then Some (payload e) else None),
            tick w))"

definition redis_setex :: "host \<Rightarrow> string \<Rightarrow> nat \<Rightarrow> json \<Rightarrow> world \<Rightarrow> unit outcome \<times> world" where
  "redis_setex h k ttl doc w =
     (if fails h (io w) then (Threw, tick w)
      else (Returned (),
            tick (w\<lparr>cache := (cache w)(k \<mapsto> \<lparr>payload = doc, expires_at = now h w + ttl\<rparr>)\<rparr>)))"

definition redis_expire :: "host \<Rightarrow> string \<Rightarrow> nat \<Rightarrow> world \<Rightarrow> unit outcome \<times> world" where
  "redis_expire h k ttl w =
     (if fails h (io w) then (Threw, tick w)
      else (Returned (),
            tick (case cache w k of
                    None \<Rightarrow> w
                  | Some e \<Rightarrow>
                      if now h w < expires_at e
                      then w\<lparr>cache := (cache w)(k \<mapsto> e\<lparr>expires_at := now h w + ttl\<rparr>)\<rparr>
                      else w)))"

text \<open>\<open>XADD orders_stream *\<close>: the entry gets the next position of the stream.\<close>

definition redis_xadd :: "host \<Rightarrow> string list \<Rightarrow> world \<Rightarrow> nat outcome \<times> world" where
  "redis_xadd h fs w =
     (if fails h (io w) then (Threw, tick w)
      else (Returned (length (stream w)),
            tick (w\<lparr>stream := stream w @ [(length (stream w), fs)]\<rparr>)))"

text \<open>
  \<open>XREAD BLOCK 5000 STREAMS orders_stream $\<close>: the position \<open>$\<close> is the end of the
  stream at the moment the call is issued, so the call returns what is appended while it
  blocks, and \<open>null\<close> when nothing is appended within the wait. The field lists appended
  meanwhile are \<open>arrivals\<close>; they enter the stream at its end.
\<close>

definition number_from :: "nat \<Rightarrow> 'a list \<Rightarrow> (nat \<times> 'a) list" where
  "number_from n xs = zip [n ..< n + length xs] xs"

definition redis_xread ::
  "host \<Rightarrow> string list list \<Rightarrow> world \<Rightarrow> (nat \<times> string list) list option outcome \<times> world" where
  "redis_xread h arrivals w =
     (if fails h (io w) then (Threw, tick w)
      else (let ms = number_from (length (stream w)) arrivals
            in (Returned (if ms = [] then None else Some ms),
                tick (w\<lparr>stream := stream w @ ms\<rparr>))))"

definition db_select :: "host \<Rightarrow> string \<Rightarrow> world \<Rightarrow> order_row option outcome \<times> world" where
  "db_select h k w =
     (if fails h (io w) then (Threw, tick w)
      else (Returned (find_row k (orders w)), tick w))"

text \<open>
  \<open>INSERT ... ON DUPLICATE KEY UPDATE\<close>: a row with the same key has the six listed
  columns overwritten; otherwise a new row is appended, its \<open>created_at\<close> and
  \<open>updated_at\<close> taking their default \<open>CURRENT_TIMESTAMP\<close>. The columns hold the numbers
  as they are bound to the statement.
\<close>

fun upsert_row ::
  "nat \<Rightarrow> nat \<Rightarrow> string \<Rightarrow> jsnum \<Rightarrow> jsnum \<Rightarrow> jsnum \<Rightarrow> order_row list \<Rightarrow> order_row list" where
  "upsert_row t n k a tx tot [] =
     [\<lparr>row_id = n, order_id = k, amount = a, tax = tx, total = tot, status = completed,
       created_at = t, updated_at = t, processed_at = Some t\<rparr>]"
| "upsert_row t n k a tx tot (r # rs) =
     (if key_of (order_id r) = key_of k
      then r\<lparr>amount := a, tax := tx, total := tot, status := completed,
             processed_at := Some t, updated_at := t\<rparr> # rs
      else r # upsert_row t n k a tx tot rs)"

definition db_upsert ::
  "host \<Rightarrow> string \<Rightarrow> jsnum \<Rightarrow> jsnum \<Rightarrow> jsnum \<Rightarrow> world \<Rightarrow> unit outcome \<times> world" where
  "db_upsert h k a tx tot w =
     (if fails h (io w) then (Threw, tick w)
      else (Returned (),
            tick (w\<lparr>orders := upsert_row (now h w) (auto_increment w) k a tx tot (orders w),
                    auto_increment := (if find_row k (orders w) = None
                                       then Suc (auto_increment w) else auto_increment w)\<rparr>)))"

section \<open>The API routes\<close>

datatype response =
    Queued jsval jsnum
  | BadRequest string
  | AlreadyCached jsval json
  | AlreadyStored jsval order_status
  | QueueFailed
  | Found json
  | NotFound string
  | RetrieveFailed string

fun status_code :: "response \<Rightarrow> nat" where
  "status_code (Queued v a) = 201"
| "status_code (BadRequest m) = 400"
| "status_code (AlreadyCached v d) = 409"
| "status_code (AlreadyStored v st) = 409"
| "status_code QueueFailed = 500"
| "status_code (Found d) = 200"
| "status_code (NotFound k) = 404"
| "status_code (RetrieveFailed k) = 500"

definition id_char :: "char \<Rightarrow> bool" where
  "id_char c =
     (c \<in> set ''abcdefghijklmnopqrstuvwxyzABCDEFGHIJKLMNOPQRSTUVWXYZ0123456789_-'')"

text \<open>\<open>/^[a-zA-Z0-9_-]+$/.test(s)\<close>\<close>

definition id_regex :: "string \<Rightarrow> bool" where
  "id_regex s = (s \<noteq> [] \<and> list_all id_char s)"

text \<open>\<open>v.length > 100\<close>; a value that is not a string has no length, and the test is false.\<close>

fun too_long :: "jsval \<Rightarrow> bool" where
  "too_long (JStr s) = (100 < length s)"
| "too_long v = False"

definition cache_key :: "string \<Rightarrow> string" where
  "cache_key k = ''order:'' @ k"

text \<open>The fields of \<open>messageData\<close> that are neither \<open>null\<close> nor \<open>undefined\<close>, flattened.\<close>

definition stream_args :: "(string \<times> jsval) list \<Rightarrow> string list" where
  "stream_args kvs =
     concat (map (\<lambda>(k, v). if v \<noteq> JNull \<and> v \<noteq> JUndefined then [k, ToString v] else []) kvs)"

text \<open>
  \<open>router.post('/')\<close>. \<open>oid\<close> and \<open>amt\<close> are the properties \<open>order_id\<close> and \<open>amount\<close> read from
  the request body, \<open>request_ip\<close> the value of \<open>req.ip || req.connection.remoteAddress\<close>.
  Any exception lands in the handler's one \<open>catch\<close>, which answers 500. For a value
  that is not a string or a number the route's own coercions are followed; how the
  database driver binds such a value is not.
\<close>

definition post_order :: "host \<Rightarrow> jsval \<Rightarrow> jsval \<Rightarrow> jsval \<Rightarrow> world \<Rightarrow> response \<times> world" where
  "post_order h oid amt request_ip w =
     (if \<not> truthy oid \<or> \<not> truthy amt
        then (BadRequest ''Missing required fields: order_id and amount'', w)
      else if \<not> id_regex (ToString oid) \<or> too_long oid
        then (BadRequest ''Invalid order_id format. Use alphanumeric characters, hyphens, or underscores (max 100 chars)'', w)
      else
        let numericAmount = ToNumber amt in
        if \<not> Number_isFinite numericAmount \<or> js_le numericAmount (Fin 0)
           \<or> js_gt numericAmount lit_999999_9999
          then (BadRequest ''Amount must be a positive number less than 1,000,000'', w)
        else
          case redis_get h (cache_key (ToString oid)) w of
            (Threw, w1) \<Rightarrow> (QueueFailed, say LogCreateError w1)
          | (Returned (Some existingOrder), w1) \<Rightarrow> (AlreadyCached oid existingOrder, w1)
          | (Returned None, w1) \<Rightarrow>
              (case db_select h (ToString oid) w1 of
                 (Threw, w2) \<Rightarrow> (QueueFailed, say LogCreateError w2)
               | (Returned (Some existing), w2) \<Rightarrow> (AlreadyStored oid (status existing), w2)
               | (Returned None, w2) \<Rightarrow>
                   (case redis_xadd h
                           (stream_args [(''order_id'', oid),
                                         (''amount'', JNum numericAmount),
                                         (''created_at'', JStr (iso h (now h w2))),
                                         (''request_ip'', request_ip)]) w2 of
                      (Threw, w3) \<Rightarrow> (QueueFailed, say LogCreateError w3)
                    | (Returned entryId, w3) \<Rightarrow>
                        (Queued oid numericAmount,
                         say (LogQueued (ToString oid) numericAmount) w3))))"

text \<open>The row as the SELECT of the read path returns it, made a document.\<close>

definition row_json :: "host \<Rightarrow> order_row \<Rightarrow> json" where
  "row_json h r =
     [(''order_id'', JStr (order_id r)),
      (''amount'', json_number (amount r)),
      (''tax'', json_number (tax r)),
      (''total'', json_number (total r)),
      (''status'', JStr (case status r of processing \<Rightarrow> ''processing''
                                         | completed \<Rightarrow> ''completed''
                                         | failed \<Rightarrow> ''failed'')),
      (''created_at'', JStr (iso h (created_at r))),
      (''updated_at'', JStr (iso h (updated_at r))),
      (''processed_at'', (case processed_at r of None \<Rightarrow> JNull | Some t \<Rightarrow> JStr (iso h t)))]"

text \<open>
  \<open>router.get('/:order_id')\<close>; the route parameter is a string. The cache is tried
  inside its own \<open>try\<close>: a failing \<open>get\<close> or \<open>expire\<close> is logged and the database is
  asked.
\<close>

definition get_from_database :: "host \<Rightarrow> string \<Rightarrow> world \<Rightarrow> response \<times> world" where
  "get_from_database h oid w =
     (case db_select h oid (say (LogCacheMiss oid) w) of
        (Threw, w1) \<Rightarrow> (RetrieveFailed oid, say (LogRetrieveError oid) w1)
      | (Returned None, w1) \<Rightarrow> (NotFound oid, w1)
      | (Returned (Some order), w1) \<Rightarrow>
          (let enrichedOrder =
                 obj_set ''retrieved_at'' (JStr (iso h (now h w1)))
                   (obj_set ''cache_hit'' (JBool False) (row_json h order))
           in case redis_setex h (cache_key oid) 3600 enrichedOrder w1 of
                (Threw, w2) \<Rightarrow>
                  (Found enrichedOrder,
                   say (LogServedFromDatabase oid) (say (LogCacheWriteFailed oid) w2))
              | (Returned u, w2) \<Rightarrow>
                  (Found enrichedOrder,
                   say (LogServedFromDatabase oid) (say (LogCached oid) w2))))"

definition get_order :: "host \<Rightarrow> string \<Rightarrow> world \<Rightarrow> response \<times> world" where
  "get_order h oid w =
     (if oid = [] \<or> trim oid = []
        then (BadRequest ''Order ID is required and cannot be empty'', w)
      else if \<not> id_regex oid \<or> 100 < length oid
        then (BadRequest ''Invalid order_id format'', w)
      else
        case redis_get h (cache_key oid) (say (LogRetrieving oid) w) of
          (Threw, w1) \<Rightarrow> get_from_database h oid (say (LogCacheReadError oid) w1)
        | (Returned None, w1) \<Rightarrow> get_from_database h oid w1
        | (Returned (Some orderData), w1) \<Rightarrow>
            (case redis_expire h (cache_key oid) 3600 (say (LogServedFromCache oid) w1) of
               (Threw, w2) \<Rightarrow> get_from_database h oid (say (LogCacheReadError oid) w2)
             | (Returned u, w2) \<Rightarrow>
                 (Found (obj_set ''retrieved_at'' (JStr (iso h (now h w2)))
                           (obj_set ''cache_hit'' (JBool True) orderData)),
                  w2)))"

section \<open>The worker\<close>

text \<open>
  The loop \<open>for (i = 0; i < fields.length; i += 2) data[fields[i]] = fields[i + 1]\<close>
  and the read of one property of \<open>data\<close> afterwards: the last pair of a key wins, and a
  key without a partner is \<open>undefined\<close>.
\<close>

fun field_from :: "string \<Rightarrow> string list \<Rightarrow> string option \<Rightarrow> string option" where
  "field_from k [] acc = acc"
| "field_from k [x] acc = (if x = k then None else acc)"
| "field_from k (x # v # fs) acc = field_from k fs (if x = k then Some v else acc)"

definition field :: "string \<Rightarrow> string list \<Rightarrow> string option" where
  "field k fs = field_from k fs None"

text \<open>A property that is \<open>undefined\<close> or the empty string is falsy.\<close>

fun present :: "string option \<Rightarrow> bool" where
  "present None = False"
| "present (Some s) = (s \<noteq> [])"

fun text_of :: "string option \<Rightarrow> string" where
  "text_of None = ''undefined''"
| "text_of (Some s) = s"

text \<open>\<open>x || null\<close> on such a property.\<close>

fun or_null :: "string option \<Rightarrow> jsval" where
  "or_null None = JNull"
| "or_null (Some s) = (if s = [] then JNull else JStr s)"

text \<open>\<open>Math.round(x * 10000) / 10000\<close>, the rounding to four decimal places.\<close>

definition round4 :: "jsnum \<Rightarrow> jsnum" where
  "round4 x = js_div (Math_round (js_mul x (Fin 10000))) (Fin 10000)"

definition compute_tax :: "jsnum \<Rightarrow> jsnum" where
  "compute_tax amountNum = round4 (js_mul amountNum lit_0_18)"

definition compute_total :: "jsnum \<Rightarrow> jsnum \<Rightarrow> jsnum" where
  "compute_total amountNum tx = round4 (js_add amountNum tx)"

definition orderData :: "host \<Rightarrow> world \<Rightarrow> string list \<Rightarrow> jsnum \<Rightarrow> jsnum \<Rightarrow> jsnum \<Rightarrow> json" where
  "orderData h w fs amountNum tx tot =
     [(''order_id'', JStr (text_of (field ''order_id'' fs))),
      (''amount'', json_number amountNum),
      (''tax'', json_number tx),
      (''total'', json_number tot),
      (''status'', JStr ''completed''),
      (''customer_id'', or_null (field ''customer_id'' fs)),
      (''description'', or_null (field ''description'' fs)),
      (''created_at'', (if present (field ''created_at'' fs)
                         then JStr (text_of (field ''created_at'' fs))
                         else JStr (iso h (now h w)))),
      (''processed_at'', JStr (iso h (now h w))),
      (''updated_at'', JStr (iso h (now h w)))]"

text \<open>
  The body of the inner \<open>for\<close> loop for one message, with the error counter
  \<open>consecutiveErrors\<close>. The two \<open>continue\<close> statements and the normal end return the
  counter. The \<open>catch\<close> of the inner \<open>try\<close> builds its log record from the variable
  \<open>data\<close>, which is declared by \<open>const\<close> inside the \<open>try\<close> block and so is not in
  scope there: evaluating the record raises a \<open>ReferenceError\<close> before anything is
  printed, and that error leaves the handler. So an exception of \<open>db.query\<close> or of
  \<open>redis.setex\<close> ends as \<open>Threw\<close>.
\<close>

definition process_message ::
  "host \<Rightarrow> nat \<times> string list \<Rightarrow> nat \<Rightarrow> world \<Rightarrow> nat outcome \<times> world" where
  "process_message h m consecutiveErrors w =
     (let w0 = say (LogProcessingMessage (fst m)) w;
          oid = field ''order_id'' (snd m);
          amt = field ''amount'' (snd m)
      in if \<not> present oid \<or> \<not> present amt
           then (Returned consecutiveErrors, say LogInvalidData w0)
         else
           let amountNum = js_Number (text_of amt) in
           if \<not> Number_isFinite amountNum \<or> js_le amountNum (Fin 0)
             then (Returned consecutiveErrors,
                   say (LogInvalidAmount (text_of oid) (text_of amt)) w0)
           else
             let tx = compute_tax amountNum;
                 tot = compute_total amountNum tx;
                 w1 = say (LogProcessingOrder (text_of oid) amountNum tx tot) w0
             in case db_upsert h (text_of oid) amountNum tx tot w1 of
                  (Threw, w2) \<Rightarrow> (Threw, w2)
                | (Returned u, w2) \<Rightarrow>
                    (case redis_setex h (cache_key (text_of oid)) 3600
                            (orderData h w2 (snd m) amountNum tx tot) w2 of
                       (Threw, w3) \<Rightarrow> (Threw, w3)
                     | (Returned v, w3) \<Rightarrow> (Returned 0, say (LogProcessed (text_of oid)) w3)))"

text \<open>
  The two nested \<open>for\<close> loops over the one stream of the reply. Before each message the
  shutdown flag is looked at; \<open>return\<close> leaves \<open>processOrders\<close>.
\<close>

datatype batch_exit = Completed nat | ShutdownSeen | Raised nat

fun process_messages ::
  "host \<Rightarrow> (nat \<times> string list) list \<Rightarrow> nat \<Rightarrow> world \<Rightarrow> batch_exit \<times> world" where
  "process_messages h [] consecutiveErrors w = (Completed consecutiveErrors, w)"
| "process_messages h (m # ms) consecutiveErrors w =
     (if shutdown h (io w) then (ShutdownSeen, say LogShutdownRequested w)
      else case process_message h m consecutiveErrors w of
             (Threw, w1) \<Rightarrow> (Raised consecutiveErrors, w1)
           | (Returned c, w1) \<Rightarrow> process_messages h ms c w1)"

text \<open>
  The \<open>catch\<close> of the \<open>while\<close> body: count the error, give up at five in a row,
  otherwise wait \<open>min(1000 * 2^(n - 1), 30000)\<close> milliseconds.
\<close>

datatype iteration_exit = Continue nat | Return | Rethrow

definition maxConsecutiveErrors :: nat where
  "maxConsecutiveErrors = 5"

definition loop_error :: "nat \<Rightarrow> world \<Rightarrow> iteration_exit \<times> world" where
  "loop_error consecutiveErrors w =
     (let n = Suc consecutiveErrors;
          w1 = say (LogLoopError n) w
      in if maxConsecutiveErrors \<le> n then (Rethrow, say LogTooManyErrors w1)
         else (Continue n, say (LogWaiting (min (1000 * 2 ^ (n - 1)) 30000)) w1))"

text \<open>One pass through the body of \<open>while (!isShuttingDown)\<close>.\<close>

definition iteration ::
  "host \<Rightarrow> string list list \<Rightarrow> nat \<Rightarrow> world \<Rightarrow> iteration_exit \<times> world" where
  "iteration h arrivals consecutiveErrors w =
     (case redis_xread h arrivals w of
        (Threw, w1) \<Rightarrow> loop_error consecutiveErrors w1
      | (Returned None, w1) \<Rightarrow> (Continue 0, w1)
      | (Returned (Some messages), w1) \<Rightarrow>
          (case process_messages h messages consecutiveErrors w1 of
             (Completed c, w2) \<Rightarrow> (Continue c, w2)
           | (ShutdownSeen, w2) \<Rightarrow> (Return, w2)
           | (Raised c, w2) \<Rightarrow> loop_error c w2))"

text \<open>
  \<open>processOrders\<close>, run for as many reads as \<open>reads\<close> lists what arrives during each.
  When the loop gives up, the outer \<open>catch\<close> logs the fatal error and, unless the
  process is shutting down, starts \<open>processOrders\<close> again after five seconds, with a
  fresh counter.
\<close>

datatype loop_exit = Exited | StillRunning

fun consumer_loop ::
  "host \<Rightarrow> string list list list \<Rightarrow> nat \<Rightarrow> world \<Rightarrow> loop_exit \<times> world" where
  "consumer_loop h [] consecutiveErrors w = (StillRunning, w)"
| "consumer_loop h (arrivals # reads) consecutiveErrors w =
     (if shutdown h (io w) then (Exited, w)
      else case iteration h arrivals consecutiveErrors w of
             (Continue c, w1) \<Rightarrow> consumer_loop h reads c w1
           | (Return, w1) \<Rightarrow> (Exited, w1)
           | (Rethrow, w1) \<Rightarrow>
               (if shutdown h (io w1) then (Exited, say LogFatal w1)
                else consumer_loop h reads 0 (say LogRestart (say LogFatal w1))))"

definition processOrders :: "host \<Rightarrow> string list list list \<Rightarrow> world \<Rightarrow> loop_exit \<times> world" where
  "processOrders h reads w = consumer_loop h reads 0 w"

section \<open>Vocabulary of the properties\<close>

text \<open>The pattern \<open>[A-Za-z0-9_-]{1,100}\<close>.\<close>

definition matches_id :: "string \<Rightarrow> bool" where
  "matches_id s = (1 \<le> length s \<and> length s \<le> 100 \<and> list_all id_char s)"

text \<open>
  A finite number \<open>a\<close> with \<open>0 < a \<le> 999999.9999\<close>, the bound being the number that
  the literal \<open>999999.9999\<close> denotes.
\<close>

definition valid_amount :: "jsnum \<Rightarrow> bool" where
  "valid_amount a = (Number_isFinite a \<and> js_lt (Fin 0) a \<and> js_le a lit_999999_9999)"

text \<open>The three kinds of answer of the admission: 400, 409 and 201.\<close>

fun is_validation_error :: "response \<Rightarrow> bool" where
  "is_validation_error (BadRequest m) = True"
| "is_validation_error r = False"

fun is_duplicate :: "response \<Rightarrow> bool" where
  "is_duplicate (AlreadyCached v d) = True"
| "is_duplicate (AlreadyStored v st) = True"
| "is_duplicate r = False"

fun is_accepted :: "response \<Rightarrow> bool" where
  "is_accepted (Queued v a) = True"
| "is_accepted r = False"

text \<open>The cache holds an entry under \<open>k\<close> that has not expired.\<close>

definition cached_live :: "host \<Rightarrow> world \<Rightarrow> string \<Rightarrow> bool" where
  "cached_live h w k = (case cache w k of None \<Rightarrow> False | Some e \<Rightarrow> now h w < expires_at e)"

text \<open>
  A stream entry the worker skips: \<open>order_id\<close> or \<open>amount\<close> missing (or empty), or the
  amount not a finite number, or not positive.
\<close>

definition malformed :: "string list \<Rightarrow> bool" where
  "malformed fs =
     (\<not> present (field ''order_id'' fs) \<or> \<not> present (field ''amount'' fs)
      \<or> \<not> Number_isFinite (js_Number (text_of (field ''amount'' fs)))
      \<or> js_le (js_Number (text_of (field ''amount'' fs))) (Fin 0))"

text \<open>The order id and the amount of an entry that is not skipped.\<close>

definition decoded :: "string list \<Rightarrow> (string \<times> jsnum) option" where
  "decoded fs =
     (if malformed fs then None
      else Some (text_of (field ''order_id'' fs), js_Number (text_of (field ''amount'' fs))))"

text \<open>
  Rounding to \<open>n\<close> decimal places as the specification words it, \<open>round(x, n)\<close>, on
  exact decimal quantities: the nearest multiple of \<open>10 ^ -n\<close>, a tie going up. With it,
  the tax and the total the specification asks for: \<open>round(a * 0.18, 4)\<close> and
  \<open>round(a + tax, 4)\<close>.
\<close>

definition spec_round :: "rat \<Rightarrow> nat \<Rightarrow> rat" where
  "spec_round x n = of_int \<lfloor>x * 10 ^ n + 1 / 2\<rfloor> / 10 ^ n"

definition spec_tax :: "rat \<Rightarrow> rat" where
  "spec_tax a = spec_round (a * (18 / 100)) 4"

definition spec_total :: "rat \<Rightarrow> rat" where
  "spec_total a = spec_round (a + spec_tax a) 4"

subsection \<open>Concrete runs\<close>

text \<open>
  A host whose calls fail at the listed positions and whose clock starts at
  2024-01-01T00:00:00Z and advances one second with every call; \<open>iso\<close> prints the first
  ten seconds of that day.
\<close>

definition example_host :: "nat list \<Rightarrow> host" where
  "example_host ks =
     \<lparr>fails = (\<lambda>k. k \<in> set ks),
      clock = (\<lambda>k. 1704067200 + k),
      shutdown = (\<lambda>k. False),
      iso = (\<lambda>t. ''2024-01-01T00:00:0'' @ [''0123456789'' ! (t - 1704067200)] @ ''.000Z'')\<rparr>"

definition empty_world :: world where
  "empty_world =
     \<lparr>cache = Map.empty, stream = [], orders = [], auto_increment = 1, console = [], io = 0\<rparr>"

definition entry :: "string \<Rightarrow> string \<Rightarrow> string list" where
  "entry k a = [''order_id'', k, ''amount'', a, ''created_at'', ''2024-01-01T00:00:00.000Z'']"

text \<open>Submitting \<open>ord-1\<close> twice, with nothing processed in between.\<close>

definition first_submit :: "response \<times> world" where
  "first_submit =
     post_order (example_host []) (JStr ''ord-1'') (JNum (Fin 100)) JUndefined empty_world"

definition second_submit :: "response \<times> world" where
  "second_submit =
     post_order (example_host []) (JStr ''ord-1'') (JNum (Fin 50)) JUndefined (snd first_submit)"

text \<open>
  The worker reads \<open>ord-1\<close>, the database call for it fails, and the next read times out
  with nothing new.
\<close>

definition failed_then_idle :: "loop_exit \<times> world" where
  "failed_then_idle =
     processOrders (example_host [1]) [ [entry ''ord-1'' ''100''], []] empty_world"

text \<open>
  The same failure with the error counter at three, followed by a read that times out and
  a read that delivers \<open>ord-2\<close>.
\<close>

definition failed_then_others :: "loop_exit \<times> world" where
  "failed_then_others =
     consumer_loop (example_host [1])
       [ [entry ''ord-1'' ''100''], [], [entry ''ord-2'' ''50'']] 3 empty_world"

text \<open>The worker processes an entry whose amount is \<open>0.0075\<close>.\<close>

definition small_amount_order :: world where
  "small_amount_order =
     snd (process_message (example_host []) (0, entry ''ord-1'' ''0.0075'') 0 empty_world)"

text \<open>One read delivers two entries; the cache write of the first fails.\<close>

definition cache_down_batch :: "iteration_exit \<times> world" where
  "cache_down_batch =
     iteration (example_host [2]) [entry ''ord-1'' ''100'', entry ''ord-2'' ''50''] 0 empty_world"

text \<open>A valid submit while the cache lookup throws.\<close>

definition cache_down_submit :: "response \<times> world" where
  "cache_down_submit =
     post_order (example_host [0]) (JStr ''ord-1'') (JNum (Fin 100)) JUndefined empty_world"

text \<open>The same entry delivered once, and delivered again two seconds later.\<close>

definition delivered_once :: world where
  "delivered_once =
     snd (process_message (example_host []) (0, entry ''ord-1'' ''100'') 0 empty_world)"

definition delivered_twice :: world where
  "delivered_twice =
     snd (process_message (example_host []) (0, entry ''ord-1'' ''100'') 0 delivered_once)"

section \<open>Evaluation and auxiliary facts\<close>


subsection \<open>Numbers\<close>

lemma floor_rat_numeral_div:
  "\<lfloor>(numeral a :: rat) / numeral b\<rfloor> = numeral a div numeral b"
  using floor_divide_of_int_eq [of "numeral a" "numeral b", where ?'a = rat] by simp

lemma floor_rat_neg_numeral_div:
  "\<lfloor>- ((numeral a :: rat) / numeral b)\<rfloor> = - numeral a div numeral b"
  using floor_divide_of_int_eq [of "- numeral a" "numeral b", where ?'a = rat] by simp

lemmas fl_eval = fl_def ilog2_def pow2_def pow10_def round_half_even_def compute_bitlen Let_def
  floor_rat_numeral_div floor_rat_neg_numeral_div

lemma lit_0_18_eq: "lit_0_18 = Fin (3242591731706757 / 18014398509481984)"
  by (simp add: lit_0_18_def fl_eval)

lemma lit_999999_9999_eq: "lit_999999_9999 = Fin (8589934591141007 / 8589934592)"
  by (simp add: lit_999999_9999_def fl_eval)

lemmas Number_eval = js_Number_def trim_def white_space_def strip_front.simps non_decimal_def
  decimal_value_def
  is_digit_def exponent_part_def radix_value_def digit_val_def

lemma Number_100: "js_Number ''100'' = Fin 100"
  by (simp add: Number_eval fl_eval)

lemma Number_50: "js_Number ''50'' = Fin 50"
  by (simp add: Number_eval fl_eval)

lemma tax_100: "compute_tax (Fin 100) = Fin 18"
  by (simp add: compute_tax_def round4_def lit_0_18_eq fl_eval)

lemma total_100: "compute_total (Fin 100) (Fin 18) = Fin 118"
  by (simp add: compute_total_def round4_def fl_eval)

lemma replicate_numeral: "replicate (numeral k) x = x # replicate (pred_numeral k) x"
  by (simp add: numeral_eq_Suc)

lemmas toString_eval = positive_string_def ilog10_def compute_floorlog digit_search.simps
  digit_cand_def layout_def dec_string.simps replicate_numeral

lemma toString_100: "positive_string 100 = ''100''"
  by (simp add: toString_eval fl_eval)

lemma toString_50: "positive_string 50 = ''50''"
  by (simp add: toString_eval fl_eval)

lemmas io_eval = redis_get_def redis_setex_def redis_expire_def redis_xadd_def redis_xread_def
  db_select_def db_upsert_def tick_def say_def now_def number_from_def

lemmas id_eval = id_regex_def id_char_def cache_key_def matches_id_def

lemmas entry_eval = entry_def field_def malformed_def decoded_def

subsection \<open>The table\<close>

lemma find_row_upsert_row_same:
  "find_row k (upsert_row t n k a tx tot rs) =
     Some (case find_row k rs of
             None \<Rightarrow> \<lparr>row_id = n, order_id = k, amount = a, tax = tx, total = tot,
                       status = completed, created_at = t, updated_at = t, processed_at = Some t\<rparr>
           | Some r \<Rightarrow> r\<lparr>amount := a, tax := tx, total := tot, status := completed,
                          processed_at := Some t, updated_at := t\<rparr>)"
  by (induction rs) auto

lemma find_row_upsert_row_other:
  "key_of k' \<noteq> key_of k \<Longrightarrow> find_row k' (upsert_row t n k a tx tot rs) = find_row k' rs"
  by (induction rs) auto

subsection \<open>One message\<close>

lemma process_message_malformed:
  "malformed fs \<Longrightarrow>
   process_message h (i, fs) c w =
     (Returned c,
      say (if \<not> present (field ''order_id'' fs) \<or> \<not> present (field ''amount'' fs)
           then LogInvalidData
           else LogInvalidAmount (text_of (field ''order_id'' fs)) (text_of (field ''amount'' fs)))
        (say (LogProcessingMessage i) w))"
  by (auto simp: process_message_def malformed_def Let_def)

lemma process_message_decoded:
  "decoded fs = Some (k, a) \<Longrightarrow>
   process_message h (i, fs) c w =
     (case db_upsert h k a (compute_tax a) (compute_total a (compute_tax a))
             (say (LogProcessingOrder k a (compute_tax a) (compute_total a (compute_tax a)))
                (say (LogProcessingMessage i) w)) of
        (Threw, w2) \<Rightarrow> (Threw, w2)
      | (Returned u, w2) \<Rightarrow>
          (case redis_setex h (cache_key k) 3600
                  (orderData h w2 fs a (compute_tax a) (compute_total a (compute_tax a))) w2 of
             (Threw, w3) \<Rightarrow> (Threw, w3)
           | (Returned v, w3) \<Rightarrow> (Returned 0, say (LogProcessed k) w3)))"
  by (auto simp: process_message_def decoded_def malformed_def Let_def
      split: if_splits prod.splits outcome.splits)

lemma orders_process_message_decoded:
  "decoded fs = Some (k, a) \<Longrightarrow> \<not> fails h (io w) \<Longrightarrow>
   orders (snd (process_message h (i, fs) c w)) =
     upsert_row (now h w) (auto_increment w) k a (compute_tax a)
       (compute_total a (compute_tax a)) (orders w)"
  by (simp add: process_message_decoded io_eval)

lemma io_process_message_decoded:
  "decoded fs = Some (k, a) \<Longrightarrow> \<not> fails h (io w) \<Longrightarrow>
   io (snd (process_message h (i, fs) c w)) = Suc (Suc (io w))"
  by (simp add: process_message_decoded io_eval)

lemma orders_process_message_failed:
  "fails h (io w) \<Longrightarrow> orders (snd (process_message h m c w)) = orders w"
  by (cases m) (simp add: process_message_def Let_def io_eval)

lemma find_row_process_message_other:
  "key_of (text_of (field ''order_id'' (snd m))) \<noteq> key_of k \<Longrightarrow>
   find_row k (orders (snd (process_message h m c w))) = find_row k (orders w)"
  by (simp add: process_message_def Let_def io_eval find_row_upsert_row_other)


subsection \<open>A batch, an iteration, the loop\<close>

lemma find_row_process_messages_other:
  "\<forall>m \<in> set ms. key_of (text_of (field ''order_id'' (snd m))) \<noteq> key_of k \<Longrightarrow>
   find_row k (orders (snd (process_messages h ms c w))) = find_row k (orders w)"
proof (induction ms arbitrary: c w)
  case Nil
  show ?case by simp
next
  case (Cons m ms)
  obtain r w1 where step: "process_message h m c w = (r, w1)"
    by (cases "process_message h m c w")
  from Cons.prems have "find_row k (orders (snd (process_message h m c w))) = find_row k (orders w)"
    by (simp add: find_row_process_message_other)
  with step have kept: "find_row k (orders w1) = find_row k (orders w)"
    by simp
  show ?case
  proof (cases "shutdown h (io w)")
    case True
    then show ?thesis by (simp add: say_def)
  next
    case False
    show ?thesis
    proof (cases r)
      case Threw
      with False step kept show ?thesis by simp
    next
      case (Returned c')
      from Cons.prems have "find_row k (orders (snd (process_messages h ms c' w1))) = find_row k (orders w1)"
        by (intro Cons.IH) simp
      with False step kept Returned show ?thesis by simp
    qed
  qed
qed

lemma orders_loop_error: "orders (snd (loop_error c w)) = orders w"
  by (simp add: loop_error_def Let_def say_def)

lemma snd_number_from: "m \<in> set (number_from n xs) \<Longrightarrow> snd m \<in> set xs"
  by (cases m) (auto simp: number_from_def dest: set_zip_rightD)

lemma find_row_iteration_other:
  assumes "\<forall>fs \<in> set arrivals. key_of (text_of (field ''order_id'' fs)) \<noteq> key_of k"
  shows "find_row k (orders (snd (iteration h arrivals c w))) = find_row k (orders w)"
proof (cases "fails h (io w)")
  case True
  then show ?thesis
    by (simp add: iteration_def redis_xread_def orders_loop_error tick_def)
next
  case False
  define ms where "ms = number_from (length (stream w)) arrivals"
  define w1 where "w1 = tick (w\<lparr>stream := stream w @ ms\<rparr>)"
  have read: "redis_xread h arrivals w = (Returned (if ms = [] then None else Some ms), w1)"
    using False by (simp add: redis_xread_def ms_def w1_def Let_def)
  have w1: "orders w1 = orders w"
    by (simp add: w1_def tick_def)
  have "\<forall>m \<in> set ms. key_of (text_of (field ''order_id'' (snd m))) \<noteq> key_of k"
  proof
    fix m
    assume "m \<in> set ms"
    then have "snd m \<in> set arrivals"
      unfolding ms_def by (rule snd_number_from)
    with assms show "key_of (text_of (field ''order_id'' (snd m))) \<noteq> key_of k"
      by blast
  qed
  then have batch: "find_row k (orders (snd (process_messages h ms c w1))) = find_row k (orders w)"
    using find_row_process_messages_other [of ms k h c w1] w1 by simp
  show ?thesis
  proof (cases "ms = []")
    case True
    with read w1 show ?thesis by (simp add: iteration_def)
  next
    case False
    obtain e w2 where run: "process_messages h ms c w1 = (e, w2)"
      by (cases "process_messages h ms c w1")
    with batch have "find_row k (orders w2) = find_row k (orders w)" by simp
    with read run False show ?thesis
      by (cases e) (simp_all add: iteration_def orders_loop_error)
  qed
qed

lemma find_row_consumer_loop_other:
  "\<forall>fs \<in> set (concat reads). key_of (text_of (field ''order_id'' fs)) \<noteq> key_of k \<Longrightarrow>
   find_row k (orders (snd (consumer_loop h reads c w))) = find_row k (orders w)"
proof (induction reads arbitrary: c w)
  case Nil
  show ?case by simp
next
  case (Cons arrivals reads)
  obtain e w1 where step: "iteration h arrivals c w = (e, w1)"
    by (cases "iteration h arrivals c w")
  from Cons.prems have "find_row k (orders (snd (iteration h arrivals c w))) = find_row k (orders w)"
    by (intro find_row_iteration_other) simp
  with step have kept: "find_row k (orders w1) = find_row k (orders w)"
    by simp
  have rest: "find_row k (orders (snd (consumer_loop h reads c' w'))) = find_row k (orders w')"
    for c' w'
    using Cons.prems by (intro Cons.IH) simp
  show ?case
  proof (cases "shutdown h (io w)")
    case True
    then show ?thesis by simp
  next
    case False
    show ?thesis
    proof (cases e)
      case (Continue c')
      with False step kept rest [of c' w1] show ?thesis by simp
    next
      case Return
      with False step kept show ?thesis by simp
    next
      case Rethrow
      with False step kept rest [of 0 "say LogRestart (say LogFatal w1)"] show ?thesis
        by (simp add: say_def)
    qed
  qed
qed

subsection \<open>Admission\<close>

lemma id_checks: "(id_regex s \<and> \<not> 100 < length s) = matches_id s"
  by (cases s) (auto simp: id_regex_def matches_id_def)

lemma amount_checks:
  "(truthy (JNum a) \<and> Number_isFinite a \<and> \<not> js_le a (Fin 0) \<and> \<not> js_gt a lit_999999_9999)
     = valid_amount a"
  by (cases a) (auto simp: valid_amount_def js_le_def js_gt_def lit_999999_9999_eq)

lemma post_order_checked:
  assumes "matches_id s" "valid_amount a"
  shows "post_order h (JStr s) (JNum a) ip w =
     (case redis_get h (cache_key s) w of
        (Threw, w1) \<Rightarrow> (QueueFailed, say LogCreateError w1)
      | (Returned (Some existingOrder), w1) \<Rightarrow> (AlreadyCached (JStr s) existingOrder, w1)
      | (Returned None, w1) \<Rightarrow>
          (case db_select h s w1 of
             (Threw, w2) \<Rightarrow> (QueueFailed, say LogCreateError w2)
           | (Returned (Some existing), w2) \<Rightarrow> (AlreadyStored (JStr s) (status existing), w2)
           | (Returned None, w2) \<Rightarrow>
               (case redis_xadd h
                       (stream_args [(''order_id'', JStr s), (''amount'', JNum a),
                                     (''created_at'', JStr (iso h (now h w2))),
                                     (''request_ip'', ip)]) w2 of
                  (Threw, w3) \<Rightarrow> (QueueFailed, say LogCreateError w3)
                | (Returned entryId, w3) \<Rightarrow>
                    (Queued (JStr s) a, say (LogQueued s a) w3))))"
proof -
  from assms(1) have "truthy (JStr s)" "id_regex s" "\<not> 100 < length s"
    using id_checks [of s] by (auto simp: matches_id_def)
  moreover from assms(2) have "truthy (JNum a)" "Number_isFinite a" "\<not> js_le a (Fin 0)"
      "\<not> js_gt a lit_999999_9999"
    using amount_checks [of a] by auto
  ultimately show ?thesis
    by (simp add: post_order_def Let_def split: prod.splits outcome.splits option.splits)
qed


subsection \<open>The concrete runs\<close>


lemma length_upsert_row:
  "length (upsert_row t n k a tx tot rs) = (if find_row k rs = None then Suc (length rs) else length rs)"
  by (induction rs) auto

lemma valid_amount_100: "valid_amount (Fin 100)"
  by (simp add: valid_amount_def lit_999999_9999_eq js_le_def)

lemma valid_amount_50: "valid_amount (Fin 50)"
  by (simp add: valid_amount_def lit_999999_9999_eq js_le_def)

lemma matches_ord_1: "matches_id ''ord-1''"
  by (simp add: id_eval)

lemma decoded_entry_100: "decoded (entry k ''100'') = (if k = [] then None else Some (k, Fin 100))"
  by (simp add: entry_eval Number_100 js_le_def)

lemma delivered_once_orders:
  "orders delivered_once =
     [\<lparr>row_id = 1, order_id = ''ord-1'', amount = Fin 100, tax = Fin 18, total = Fin 118,
       status = completed, created_at = 1704067200, updated_at = 1704067200,
       processed_at = Some 1704067200\<rparr>]"
  by (simp add: delivered_once_def orders_process_message_decoded [where k = "''ord-1''" and a = "Fin 100"]
      decoded_entry_100 example_host_def empty_world_def now_def tax_100 total_100)

lemma delivered_once_io: "io delivered_once = 2"
  by (simp add: delivered_once_def io_process_message_decoded [where k = "''ord-1''" and a = "Fin 100"]
      decoded_entry_100 example_host_def empty_world_def)

lemma delivered_once_auto_increment: "auto_increment delivered_once = 2"
  by (simp add: delivered_once_def process_message_decoded [where k = "''ord-1''" and a = "Fin 100"]
      decoded_entry_100 example_host_def empty_world_def io_eval)

lemma delivered_twice_orders:
  "orders delivered_twice =
     [\<lparr>row_id = 1, order_id = ''ord-1'', amount = Fin 100, tax = Fin 18, total = Fin 118,
       status = completed, created_at = 1704067200, updated_at = 1704067202,
       processed_at = Some 1704067202\<rparr>]"
  by (simp add: delivered_twice_def orders_process_message_decoded [where k = "''ord-1''" and a = "Fin 100"]
      decoded_entry_100 example_host_def now_def tax_100 total_100
      delivered_once_orders delivered_once_io)

lemmas run_eval = processOrders_def iteration_def loop_error_def maxConsecutiveErrors_def Let_def

lemma fails_example_host: "fails (example_host ks) k = (k \<in> set ks)"
  by (simp add: example_host_def)

lemma shutdown_example_host: "shutdown (example_host ks) k = False"
  by (simp add: example_host_def)

lemma clock_example_host: "clock (example_host ks) k = 1704067200 + k"
  by (simp add: example_host_def)

subsection \<open>The stream, and a failing upsert\<close>

lemma stream_process_message: "stream (snd (process_message h m c w)) = stream w"
  by (simp add: process_message_def Let_def io_eval)

lemma stream_process_messages: "stream (snd (process_messages h ms c w)) = stream w"
proof (induction ms arbitrary: c w)
  case Nil
  show ?case by simp
next
  case (Cons m ms)
  obtain r w1 where step: "process_message h m c w = (r, w1)"
    by (cases "process_message h m c w")
  then have w1: "stream w1 = stream w"
    using stream_process_message [of h m c w] by simp
  show ?case
  proof (cases "shutdown h (io w)")
    case True
    then show ?thesis by (simp add: say_def)
  next
    case False
    with step w1 Cons.IH [of _ w1] show ?thesis
      by (cases r) simp_all
  qed
qed

lemma stream_loop_error: "stream (snd (loop_error c w)) = stream w"
  by (simp add: loop_error_def Let_def say_def)

lemma stream_iteration:
  "stream (snd (iteration h arrivals c w)) =
     (if fails h (io w) then stream w
      else stream w @ number_from (length (stream w)) arrivals)"
proof (cases "fails h (io w)")
  case True
  then show ?thesis
    by (simp add: iteration_def redis_xread_def stream_loop_error tick_def)
next
  case False
  define ms where "ms = number_from (length (stream w)) arrivals"
  define w1 where "w1 = tick (w\<lparr>stream := stream w @ ms\<rparr>)"
  have read: "redis_xread h arrivals w = (Returned (if ms = [] then None else Some ms), w1)"
    using False by (simp add: redis_xread_def ms_def w1_def Let_def)
  have w1: "stream w1 = stream w @ ms"
    by (simp add: w1_def tick_def)
  show ?thesis
  proof (cases "ms = []")
    case True
    with read w1 False show ?thesis by (simp add: iteration_def ms_def)
  next
    case nonempty: False
    obtain e w2 where run: "process_messages h ms c w1 = (e, w2)"
      by (cases "process_messages h ms c w1")
    then have "stream w2 = stream w1"
      using stream_process_messages [of h ms c w1] by simp
    with read run nonempty w1 False show ?thesis
      by (cases e) (simp_all add: iteration_def stream_loop_error ms_def)
  qed
qed

lemma stream_consumer_loop:
  "set (stream w) \<subseteq> set (stream (snd (consumer_loop h reads c w)))"
proof (induction reads arbitrary: c w)
  case Nil
  show ?case by simp
next
  case (Cons arrivals reads)
  obtain e w1 where step: "iteration h arrivals c w = (e, w1)"
    by (cases "iteration h arrivals c w")
  then have grow: "set (stream w) \<subseteq> set (stream w1)"
    using stream_iteration [of h arrivals c w] by (auto split: if_splits)
  show ?case
  proof (cases "shutdown h (io w)")
    case True
    then show ?thesis by simp
  next
    case False
    show ?thesis
    proof (cases e)
      case (Continue c')
      with False step grow Cons.IH [of w1 c'] show ?thesis by auto
    next
      case Return
      with False step grow show ?thesis by simp
    next
      case Rethrow
      with False step grow Cons.IH [of "say LogRestart (say LogFatal w1)" 0] show ?thesis
        by (auto simp: say_def)
    qed
  qed
qed

lemma number_from_Cons: "number_from n (x # xs) = (n, x) # number_from (Suc n) xs"
proof -
  have "[n ..< n + length (x # xs)] = n # [Suc n ..< Suc n + length xs]"
    by (simp add: upt_conv_Cons del: upt_Suc)
  then show ?thesis
    unfolding number_from_def by simp
qed

lemma process_message_upsert_fails:
  "decoded fs = Some (k, a) \<Longrightarrow> fails h (io w) \<Longrightarrow>
   fst (process_message h (i, fs) c w) = Threw"
  by (simp add: process_message_decoded io_eval)

lemma orders_iteration_first_upsert_fails:
  assumes "decoded fs = Some (k, a)" and "\<not> fails h (io w)" and "fails h (Suc (io w))"
  shows "orders (snd (iteration h (fs # rest) c w)) = orders w"
proof -
  define n where "n = length (stream w)"
  define ms where "ms = number_from (Suc n) rest"
  define w1 where "w1 = tick (w\<lparr>stream := stream w @ (n, fs) # ms\<rparr>)"
  have read: "redis_xread h (fs # rest) w = (Returned (Some ((n, fs) # ms)), w1)"
    using assms(2) by (simp add: redis_xread_def number_from_Cons n_def ms_def w1_def Let_def)
  have w1: "orders w1 = orders w" "io w1 = Suc (io w)"
    by (simp_all add: w1_def tick_def)
  obtain r w2 where step: "process_message h (n, fs) c w1 = (r, w2)"
    by (cases "process_message h (n, fs) c w1")
  from assms(1,3) w1 have "fst (process_message h (n, fs) c w1) = Threw"
    by (simp add: process_message_upsert_fails)
  with step have r: "r = Threw" by simp
  from assms(3) w1 have "orders (snd (process_message h (n, fs) c w1)) = orders w1"
    by (simp add: orders_process_message_failed)
  with step w1 have w2: "orders w2 = orders w" by simp
  show ?thesis
    using read step r w1 w2
    by (cases "shutdown h (io w1)") (simp_all add: iteration_def orders_loop_error say_def)
qed

lemma Number_0_0075: "js_Number ''0.0075'' = Fin (1080863910568919 / 144115188075855872)"
  by (simp add: Number_eval fl_eval)

lemma tax_0_0075:
  "compute_tax (Fin (1080863910568919 / 144115188075855872))
     = Fin (1498797955988901 / 1152921504606846976)"
  by (simp add: compute_tax_def round4_def lit_0_18_eq fl_eval)

lemma total_0_0075:
  "compute_total (Fin (1080863910568919 / 144115188075855872))
       (Fin (1498797955988901 / 1152921504606846976))
     = Fin (5072854620270127 / 576460752303423488)"
  by (simp add: compute_total_def round4_def fl_eval)

lemma decoded_entry_0_0075:
  "decoded (entry ''ord-1'' ''0.0075'') =
     Some (''ord-1'', Fin (1080863910568919 / 144115188075855872))"
  by (simp add: entry_eval Number_0_0075 js_le_def)

lemma tax_50: "compute_tax (Fin 50) = Fin 9"
  by (simp add: compute_tax_def round4_def lit_0_18_eq fl_eval)

lemma total_50: "compute_total (Fin 50) (Fin 9) = Fin 59"
  by (simp add: compute_total_def round4_def fl_eval)

lemma decoded_entry_50: "decoded (entry k ''50'') = (if k = [] then None else Some (k, Fin 50))"
  by (simp add: entry_eval Number_50 js_le_def)

section \<open>Claims\<close>

text \<open>
  C1, as stated, fails: \<open>ord-1\<close> is submitted with amount 100 and, before the worker has
  processed anything, again with amount 50. Both calls are answered 201 and the stream
  holds two entries; no call is rejected as a duplicate.
\<close>

theorem submit_twice_both_accepted:
  "fst first_submit = Queued (JStr ''ord-1'') (Fin 100)
   \<and> fst second_submit = Queued (JStr ''ord-1'') (Fin 50)
   \<and> stream (snd second_submit) =
       [(0, [''order_id'', ''ord-1'', ''amount'', ''100'', ''created_at'', ''2024-01-01T00:00:02.000Z'']),
        (1, [''order_id'', ''ord-1'', ''amount'', ''50'', ''created_at'', ''2024-01-01T00:00:05.000Z''])]"
  by (simp add: first_submit_def second_submit_def post_order_checked matches_ord_1
      valid_amount_100 valid_amount_50 example_host_def empty_world_def io_eval cache_key_def
      stream_args_def toString_100 toString_50)

text \<open>
  C1, amended: a submit with a valid order id and amount, no call to the cache, the store
  or the queue failing, is rejected as a duplicate exactly when the cache holds a live
  entry \<open>order:<order_id>\<close> or the table holds a row for the order id, and is accepted,
  with exactly one entry appended to the stream, otherwise. The submit writes neither the
  cache nor the table, so a second submit of the same order id is rejected only once the
  worker has processed the first event.
\<close>

theorem post_order_duplicate_iff:
  assumes "matches_id s" and "valid_amount a"
    and "\<not> fails h (io w)" and "\<not> fails h (Suc (io w))" and "\<not> fails h (Suc (Suc (io w)))"
  shows "is_duplicate (fst (post_order h (JStr s) (JNum a) ip w))
           = (cached_live h w (cache_key s) \<or> find_row s (orders w) \<noteq> None)
       \<and> is_accepted (fst (post_order h (JStr s) (JNum a) ip w))
           = (\<not> cached_live h w (cache_key s) \<and> find_row s (orders w) = None)
       \<and> cache (snd (post_order h (JStr s) (JNum a) ip w)) = cache w
       \<and> orders (snd (post_order h (JStr s) (JNum a) ip w)) = orders w
       \<and> length (stream (snd (post_order h (JStr s) (JNum a) ip w)))
           = length (stream w)
             + (if is_accepted (fst (post_order h (JStr s) (JNum a) ip w)) then 1 else 0)"
  using assms(3-5)
  by (auto simp: post_order_checked [OF assms(1,2)] io_eval cached_live_def split: option.splits)

text \<open>
  Witness for C1: after the worker has processed \<open>ord-1\<close>, a second submit of \<open>ord-1\<close>
  is rejected as a duplicate.
\<close>

theorem post_order_duplicate_iff_witness:
  "matches_id ''ord-1'' \<and> valid_amount (Fin 50)
   \<and> \<not> fails (example_host []) (io delivered_once)
   \<and> find_row ''ord-1'' (orders delivered_once) \<noteq> None
   \<and> is_duplicate (fst (post_order (example_host []) (JStr ''ord-1'') (JNum (Fin 50)) JUndefined
        delivered_once))
   \<and> orders (snd (post_order (example_host []) (JStr ''ord-1'') (JNum (Fin 50)) JUndefined
        delivered_once)) = orders delivered_once"
proof -
  have f: "\<not> fails (example_host []) k" for k
    by (simp add: example_host_def)
  have row: "find_row ''ord-1'' (orders delivered_once) \<noteq> None"
    by (simp add: delivered_once_orders)
  from post_order_duplicate_iff [where s = "''ord-1''" and a = "Fin 50" and h = "example_host []"
      and w = delivered_once and ip = JUndefined, OF matches_ord_1 valid_amount_50 f f f]
    row f matches_ord_1 valid_amount_50
  show ?thesis by simp
qed

text \<open>
  C2, as stated, fails: the worker reads the entry for \<open>ord-1\<close>, the database call for it
  throws, and the next read finds nothing new. The loop is still running after the two
  reads; the entry is in the stream, the second read did not return it, no further
  database call was made for it (three calls in all: read, upsert, read), and the table
  has no row.
\<close>

theorem failed_entry_not_retried:
  "fst failed_then_idle = StillRunning
   \<and> orders (snd failed_then_idle) = []
   \<and> stream (snd failed_then_idle) = [(0, entry ''ord-1'' ''100'')]
   \<and> io (snd failed_then_idle) = 3
   \<and> console (snd failed_then_idle) =
       [LogProcessingMessage 0, LogProcessingOrder ''ord-1'' (Fin 100) (Fin 18) (Fin 118),
        LogLoopError 1, LogWaiting 1000]"
  by (simp add: failed_then_idle_def run_eval empty_world_def fails_example_host
      shutdown_example_host io_eval
      process_message_decoded [where k = "''ord-1''" and a = "Fin 100"] decoded_entry_100
      tax_100 total_100)

text \<open>
  C2, amended: every read of the loop asks for the entries appended after the read is
  issued (the position \<open>$\<close>); no last-seen position is kept. An entry whose database
  call throws leaves the table as it was, and it is not read again. Stated for any value
  of the error counter (\<open>processOrders\<close> is \<open>consumer_loop\<close> started at 0) and for the
  order id \<open>k\<close> of the failed entry itself: a message whose database call throws writes
  no row; an iteration changes the row of \<open>k\<close> only if an entry carrying \<open>k\<close> arrives
  during its read; and in a run whose first read delivers an entry for \<open>k\<close> whose
  database call throws, the entry stays in the stream and the row of \<open>k\<close> stays as it was
  through all later reads and restarts, whatever calls fail or succeed later, unless another
  entry carrying \<open>k\<close> arrives.
\<close>

theorem failed_entry_is_not_read_again:
  "(fails h (io w) \<longrightarrow> orders (snd (process_message h m c w)) = orders w)
   \<and> ((\<forall>fs' \<in> set arrivals. key_of (text_of (field ''order_id'' fs')) \<noteq> key_of k)
        \<longrightarrow> find_row k (orders (snd (iteration h arrivals c w))) = find_row k (orders w))
   \<and> (decoded fs = Some (k, a) \<and> \<not> fails h (io w) \<and> fails h (Suc (io w))
        \<and> (\<forall>fs' \<in> set (rest @ concat reads).
              key_of (text_of (field ''order_id'' fs')) \<noteq> key_of k)
        \<longrightarrow> find_row k (orders (snd (consumer_loop h ((fs # rest) # reads) c w)))
              = find_row k (orders w)
            \<and> (\<not> shutdown h (io w)
                 \<longrightarrow> (length (stream w), fs)
                       \<in> set (stream (snd (consumer_loop h ((fs # rest) # reads) c w)))))"
proof (intro conjI impI)
  assume "fails h (io w)"
  then show "orders (snd (process_message h m c w)) = orders w"
    by (rule orders_process_message_failed)
next
  assume "\<forall>fs' \<in> set arrivals. key_of (text_of (field ''order_id'' fs')) \<noteq> key_of k"
  then show "find_row k (orders (snd (iteration h arrivals c w))) = find_row k (orders w)"
    by (rule find_row_iteration_other)
next
  assume hyp: "decoded fs = Some (k, a) \<and> \<not> fails h (io w) \<and> fails h (Suc (io w))
        \<and> (\<forall>fs' \<in> set (rest @ concat reads).
              key_of (text_of (field ''order_id'' fs')) \<noteq> key_of k)"
  obtain e w1 where step: "iteration h (fs # rest) c w = (e, w1)"
    by (cases "iteration h (fs # rest) c w")
  from hyp have "orders (snd (iteration h (fs # rest) c w)) = orders w"
    by (intro orders_iteration_first_upsert_fails [where k = k and a = a]) simp_all
  with step have kept: "orders w1 = orders w" by simp
  have later: "find_row k (orders (snd (consumer_loop h reads c' w'))) = find_row k (orders w')"
    for c' w'
    using hyp by (intro find_row_consumer_loop_other) simp
  show "find_row k (orders (snd (consumer_loop h ((fs # rest) # reads) c w)))
      = find_row k (orders w)"
  proof (cases "shutdown h (io w)")
    case True
    then show ?thesis by simp
  next
    case False
    show ?thesis
    proof (cases e)
      case (Continue c')
      with False step kept later [of c' w1] show ?thesis by simp
    next
      case Return
      with False step kept show ?thesis by simp
    next
      case Rethrow
      with False step kept later [of 0 "say LogRestart (say LogFatal w1)"] show ?thesis
        by (simp add: say_def)
    qed
  qed
  assume running: "\<not> shutdown h (io w)"
  from hyp have "stream (snd (iteration h (fs # rest) c w))
      = stream w @ number_from (length (stream w)) (fs # rest)"
    by (simp add: stream_iteration)
  with step have there: "(length (stream w), fs) \<in> set (stream w1)"
    by (simp add: number_from_Cons)
  show "(length (stream w), fs) \<in> set (stream (snd (consumer_loop h ((fs # rest) # reads) c w)))"
  proof (cases e)
    case (Continue c')
    with running step there stream_consumer_loop [of w1 h reads c'] show ?thesis by auto
  next
    case Return
    with running step there show ?thesis by simp
  next
    case Rethrow
    with running step there
      stream_consumer_loop [of "say LogRestart (say LogFatal w1)" h reads 0] show ?thesis
      by (auto simp: say_def)
  qed
qed

text \<open>
  Witness for C2: with the counter at three, the entry for \<open>ord-1\<close> arrives and its
  database call throws; a read then times out and the next delivers \<open>ord-2\<close>. At the end
  the entry for \<open>ord-1\<close> is in the stream, \<open>ord-1\<close> has no row, and \<open>ord-2\<close> has one.
\<close>

theorem failed_entry_is_not_read_again_witness:
  "decoded (entry ''ord-1'' ''100'') = Some (''ord-1'', Fin 100)
   \<and> \<not> fails (example_host [1]) (io empty_world)
   \<and> fails (example_host [1]) (Suc (io empty_world))
   \<and> \<not> shutdown (example_host [1]) (io empty_world)
   \<and> find_row ''ord-1'' (orders (snd failed_then_others)) = None
   \<and> (0, entry ''ord-1'' ''100'') \<in> set (stream (snd failed_then_others))
   \<and> map order_id (orders (snd failed_then_others)) = [''ord-2'']
   \<and> fst failed_then_others = StillRunning"
proof -
  have d: "decoded (entry ''ord-1'' ''100'') = Some (''ord-1'', Fin 100)"
    by (simp add: decoded_entry_100)
  have f: "\<not> fails (example_host [1]) (io empty_world)"
      "fails (example_host [1]) (Suc (io empty_world))"
      "\<not> shutdown (example_host [1]) (io empty_world)"
    by (simp_all add: fails_example_host shutdown_example_host empty_world_def)
  have others: "\<forall>fs' \<in> set ([] @ concat [ [], [entry ''ord-2'' ''50'']]).
      key_of (text_of (field ''order_id'' fs')) \<noteq> key_of ''ord-1''"
    by (simp add: entry_eval key_of_def lower_def)
  have run: "map order_id (orders (snd failed_then_others)) = [''ord-2'']"
      "fst failed_then_others = StillRunning"
    by (simp_all add: failed_then_others_def run_eval empty_world_def fails_example_host
        shutdown_example_host clock_example_host io_eval
        process_message_decoded [where k = "''ord-1''" and a = "Fin 100"] decoded_entry_100
        process_message_decoded [where k = "''ord-2''" and a = "Fin 50"] decoded_entry_50
        tax_100 total_100 tax_50 total_50)
  from failed_entry_is_not_read_again [where h = "example_host [1]" and w = empty_world
      and fs = "entry ''ord-1'' ''100''" and k = "''ord-1''" and a = "Fin 100" and rest = "[]"
      and reads = "[ [], [entry ''ord-2'' ''50'']]" and c = 3 and arrivals = "[]"
      and m = "(0, [])"]
    d f others
  have "find_row ''ord-1'' (orders (snd failed_then_others)) = None
      \<and> (0, entry ''ord-1'' ''100'') \<in> set (stream (snd failed_then_others))"
    by (simp add: failed_then_others_def empty_world_def)
  with d f run show ?thesis
    by simp
qed

text \<open>
  C3 claims that a failing cache write after a successful upsert is logged and swallowed,
  the event completing and the rest of the batch being processed. On the code: one read
  delivers \<open>ord-1\<close> and \<open>ord-2\<close>, the upsert of \<open>ord-1\<close> succeeds and its cache write
  throws. The handler of the inner \<open>try\<close> raises in turn, the error reaches the handler
  of the loop, which counts it and waits one second; neither a success line nor an error
  line is printed for the message, \<open>ord-2\<close> is never looked at and has no row.
\<close>

theorem cache_write_failure_aborts_batch:
  "fst cache_down_batch = Continue 1
   \<and> map order_id (orders (snd cache_down_batch)) = [''ord-1'']
   \<and> cache (snd cache_down_batch) (cache_key ''ord-1'') = None
   \<and> io (snd cache_down_batch) = 3
   \<and> console (snd cache_down_batch) =
       [LogProcessingMessage 0, LogProcessingOrder ''ord-1'' (Fin 100) (Fin 18) (Fin 118),
        LogLoopError 1, LogWaiting 1000]"
  by (simp add: cache_down_batch_def run_eval empty_world_def fails_example_host
      shutdown_example_host clock_example_host io_eval
      process_message_decoded [where k = "''ord-1''" and a = "Fin 100"] decoded_entry_100
      tax_100 total_100)

text \<open>
  C4 claims that a cache lookup that throws during the duplicate check of a submit falls
  through to the store lookup. On the code: with a valid order id and amount and the cache
  lookup throwing, the answer is 500, the table is not asked (one call in all) and nothing
  is appended to the stream.
\<close>

theorem post_order_cache_failure:
  "fst cache_down_submit = QueueFailed
   \<and> status_code (fst cache_down_submit) = 500
   \<and> stream (snd cache_down_submit) = []
   \<and> io (snd cache_down_submit) = 1"
  by (simp add: cache_down_submit_def post_order_checked matches_ord_1 valid_amount_100
      fails_example_host empty_world_def io_eval)

text \<open>
  C5, as stated, fails: the entry for \<open>ord-1\<close> is processed, and processed again two
  seconds later. The two rows differ in \<open>updated_at\<close> and \<open>processed_at\<close>.
\<close>

theorem redelivered_row_differs:
  "find_row ''ord-1'' (orders delivered_once) =
     Some \<lparr>row_id = 1, order_id = ''ord-1'', amount = Fin 100, tax = Fin 18, total = Fin 118,
       status = completed, created_at = 1704067200, updated_at = 1704067200,
       processed_at = Some 1704067200\<rparr>
   \<and> find_row ''ord-1'' (orders delivered_twice) =
     Some \<lparr>row_id = 1, order_id = ''ord-1'', amount = Fin 100, tax = Fin 18, total = Fin 118,
       status = completed, created_at = 1704067200, updated_at = 1704067202,
       processed_at = Some 1704067202\<rparr>
   \<and> find_row ''ord-1'' (orders delivered_twice) \<noteq> find_row ''ord-1'' (orders delivered_once)"
  by (simp add: delivered_once_orders delivered_twice_orders)

text \<open>
  C5, amended: for every entry the worker does not skip, processing it a second time (the
  database calls not failing) leaves a row for its order id that equals the row after the
  first time in every column but \<open>processed_at\<close> and \<open>updated_at\<close>, which take the time
  of the second upsert; no second row is added.
\<close>

theorem redelivery_row_up_to_timestamps:
  assumes "decoded fs = Some (k, a)"
    and "\<not> fails h (io w)" and "\<not> fails h (Suc (Suc (io w)))"
  shows "find_row k (orders (snd (process_message h (i, fs) c w))) \<noteq> None
       \<and> find_row k (orders (snd (process_message h (i, fs) c'
            (snd (process_message h (i, fs) c w)))))
         = map_option (\<lambda>r. r\<lparr>processed_at := Some (clock h (Suc (Suc (io w)))),
                                updated_at := clock h (Suc (Suc (io w)))\<rparr>)
             (find_row k (orders (snd (process_message h (i, fs) c w))))
       \<and> length (orders (snd (process_message h (i, fs) c'
            (snd (process_message h (i, fs) c w)))))
         = length (orders (snd (process_message h (i, fs) c w)))"
proof -
  define w1 where "w1 = snd (process_message h (i, fs) c w)"
  have io1: "io w1 = Suc (Suc (io w))"
    unfolding w1_def using assms(1,2) by (rule io_process_message_decoded)
  have o1: "orders w1 = upsert_row (now h w) (auto_increment w) k a (compute_tax a)
       (compute_total a (compute_tax a)) (orders w)"
    unfolding w1_def using assms(1,2) by (rule orders_process_message_decoded)
  from assms(3) io1 have nf: "\<not> fails h (io w1)" by simp
  have o2: "orders (snd (process_message h (i, fs) c' w1)) =
      upsert_row (now h w1) (auto_increment w1) k a (compute_tax a)
       (compute_total a (compute_tax a)) (orders w1)"
    using assms(1) nf by (rule orders_process_message_decoded)
  have there: "find_row k (orders w1) \<noteq> None"
    by (simp add: o1 find_row_upsert_row_same)
  have row: "find_row k (orders (snd (process_message h (i, fs) c' w1))) =
      map_option (\<lambda>r. r\<lparr>processed_at := Some (clock h (Suc (Suc (io w)))),
                                updated_at := clock h (Suc (Suc (io w)))\<rparr>) (find_row k (orders w1))"
    by (simp add: o2 find_row_upsert_row_same now_def io1)
       (simp add: o1 find_row_upsert_row_same split: option.splits)
  have len: "length (orders (snd (process_message h (i, fs) c' w1))) = length (orders w1)"
    using there by (simp add: o2 length_upsert_row)
  from there row len show ?thesis
    by (simp add: w1_def)
qed

text \<open>Witness for C5: the entry for \<open>ord-1\<close>, delivered twice.\<close>

theorem redelivery_row_up_to_timestamps_witness:
  "decoded (entry ''ord-1'' ''100'') = Some (''ord-1'', Fin 100)
   \<and> \<not> fails (example_host []) (io empty_world)
   \<and> \<not> fails (example_host []) (Suc (Suc (io empty_world)))
   \<and> find_row ''ord-1'' (orders delivered_twice)
       = map_option (\<lambda>r. r\<lparr>processed_at := Some 1704067202, updated_at := 1704067202\<rparr>)
           (find_row ''ord-1'' (orders delivered_once))
   \<and> length (orders delivered_twice) = length (orders delivered_once)"
proof -
  have d: "decoded (entry ''ord-1'' ''100'') = Some (''ord-1'', Fin 100)"
    by (simp add: decoded_entry_100)
  have f: "\<not> fails (example_host []) k" for k
    by (simp add: fails_example_host)
  from redelivery_row_up_to_timestamps [where h = "example_host []" and w = empty_world
      and i = 0 and c = 0 and c' = 0, OF d f f] d f
  show ?thesis
    by (simp add: delivered_twice_def delivered_once_def clock_example_host empty_world_def)
qed

text \<open>
  C6 claims that the tax is \<open>round(a * 0.18, 4)\<close> and the total \<open>round(a + tax, 4)\<close>.
  On the code, for the amount \<open>0.0075\<close>: the worker reads the number nearest to 0.0075,
  computes \<open>Math.round(amountNum * 0.18 * 10000) / 10000\<close> in binary floating point and
  stores the tax 0.0013 and the total 0.0088, where rounding \<open>0.0075 * 0.18 = 0.00135\<close>
  to four places gives 0.0014 and the total 0.0089.
\<close>

theorem tax_misses_decimal_rounding:
  "map amount (orders small_amount_order) = [fl (75 / 10000)]
   \<and> map tax (orders small_amount_order) = [fl (13 / 10000)]
   \<and> map total (orders small_amount_order) = [fl (88 / 10000)]
   \<and> spec_tax (75 / 10000) = 14 / 10000
   \<and> spec_total (75 / 10000) = 89 / 10000
   \<and> fl (13 / 10000) \<noteq> fl (14 / 10000)
   \<and> fl (88 / 10000) \<noteq> fl (89 / 10000)"
  by (simp add: small_amount_order_def
      orders_process_message_decoded [where k = "''ord-1''"
        and a = "Fin (1080863910568919 / 144115188075855872)"]
      decoded_entry_0_0075 fails_example_host empty_world_def tax_0_0075 total_0_0075
      spec_tax_def spec_total_def spec_round_def fl_eval)

text \<open>
  C7: a submit of a string \<open>s\<close> and a number \<open>a\<close> is answered with a validation error
  (400) exactly when \<open>s\<close> does not match \<open>[A-Za-z0-9_-]{1,100}\<close> or \<open>a\<close> is not a finite
  number with \<open>0 < a \<le> 999999.9999\<close>; and then the state is untouched: nothing is appended
  to the stream, neither cache nor table is written, and no call is made.
\<close>

theorem post_order_validation:
  "is_validation_error (fst (post_order h (JStr s) (JNum a) ip w))
     = (\<not> matches_id s \<or> \<not> valid_amount a)
   \<and> (is_validation_error (fst (post_order h (JStr s) (JNum a) ip w))
        \<longrightarrow> snd (post_order h (JStr s) (JNum a) ip w) = w)"
proof (cases "matches_id s \<and> valid_amount a")
  case True
  then have "\<not> is_validation_error (fst (post_order h (JStr s) (JNum a) ip w))"
    by (simp add: post_order_checked split: prod.splits outcome.splits option.splits)
  with True show ?thesis by simp
next
  case False
  then have "\<not> (truthy (JStr s) \<and> id_regex s \<and> \<not> 100 < length s)
      \<or> \<not> (truthy (JNum a) \<and> Number_isFinite a \<and> \<not> js_le a (Fin 0) \<and> \<not> js_gt a lit_999999_9999)"
    using id_checks [of s] amount_checks [of a] by blast
  then have "is_validation_error (fst (post_order h (JStr s) (JNum a) ip w))
      \<and> snd (post_order h (JStr s) (JNum a) ip w) = w"
    by (auto simp: post_order_def Let_def)
  with False show ?thesis by simp
qed

text \<open>
  Witness for C7: the order id \<open>bad id!\<close> is rejected without effect, and \<open>ord-1\<close> with
  amount 100 is not a validation error.
\<close>

theorem post_order_validation_witness:
  "\<not> matches_id ''bad id!''
   \<and> is_validation_error (fst (post_order (example_host []) (JStr ''bad id!'') (JNum (Fin 10))
        JUndefined empty_world))
   \<and> snd (post_order (example_host []) (JStr ''bad id!'') (JNum (Fin 10)) JUndefined empty_world)
       = empty_world
   \<and> matches_id ''ord-1'' \<and> valid_amount (Fin 100)
   \<and> \<not> is_validation_error (fst (post_order (example_host []) (JStr ''ord-1'') (JNum (Fin 100))
        JUndefined empty_world))"
proof -
  have b: "\<not> matches_id ''bad id!''"
    by (simp add: id_eval)
  from post_order_validation [of "example_host []" "''bad id!''" "Fin 10" JUndefined empty_world]
    post_order_validation [of "example_host []" "''ord-1''" "Fin 100" JUndefined empty_world]
    b matches_ord_1 valid_amount_100
  show ?thesis by simp
qed

text \<open>
  C8: in a batch, an entry without \<open>order_id\<close> or \<open>amount\<close>, or whose amount is not
  finite or not positive, adds two lines to the console and nothing else: no call to the
  table or the cache is made for it, and the entries after it are processed from the same
  state and with the same error counter as if it had not been there.
\<close>

theorem malformed_entry_skipped:
  assumes "malformed (snd m)" and "\<not> shutdown h (io w)"
  shows "process_messages h (m # ms) c w =
     process_messages h ms c
       (w\<lparr>console := console w @
            [LogProcessingMessage (fst m),
             if \<not> present (field ''order_id'' (snd m)) \<or> \<not> present (field ''amount'' (snd m))
             then LogInvalidData
             else LogInvalidAmount (text_of (field ''order_id'' (snd m)))
                    (text_of (field ''amount'' (snd m)))]\<rparr>)"
  using assms process_message_malformed [of "snd m" h "fst m" c w]
  by (simp add: say_def)

text \<open>
  Witness for C8: an entry without amount, followed by a valid entry for \<open>ord-2\<close>, which
  gets its row.
\<close>

theorem malformed_entry_skipped_witness:
  "malformed (snd (0 :: nat, [''order_id'', ''ord-1'']))
   \<and> \<not> shutdown (example_host []) (io empty_world)
   \<and> fst (process_messages (example_host [])
        [(0, [''order_id'', ''ord-1'']), (1, entry ''ord-2'' ''100'')] 0 empty_world) = Completed 0
   \<and> orders (snd (process_messages (example_host [])
        [(0, [''order_id'', ''ord-1'']), (1, entry ''ord-2'' ''100'')] 0 empty_world)) =
     [\<lparr>row_id = 1, order_id = ''ord-2'', amount = Fin 100, tax = Fin 18, total = Fin 118,
       status = completed, created_at = 1704067200, updated_at = 1704067200,
       processed_at = Some 1704067200\<rparr>]
   \<and> console (snd (process_messages (example_host [])
        [(0, [''order_id'', ''ord-1'']), (1, entry ''ord-2'' ''100'')] 0 empty_world)) =
     [LogProcessingMessage 0, LogInvalidData, LogProcessingMessage 1,
      LogProcessingOrder ''ord-2'' (Fin 100) (Fin 18) (Fin 118), LogProcessed ''ord-2'']"
proof -
  have m: "malformed (snd (0 :: nat, [''order_id'', ''ord-1'']))"
    by (simp add: malformed_def field_def)
  have s: "\<not> shutdown (example_host []) (io empty_world)"
    by (simp add: shutdown_example_host)
  from malformed_entry_skipped [where h = "example_host []" and w = empty_world and c = 0
      and ms = "[(1, entry ''ord-2'' ''100'')]", OF m s] m s
  show ?thesis
    by (simp add: field_def empty_world_def shutdown_example_host fails_example_host
        clock_example_host io_eval
        process_message_decoded [where k = "''ord-2''" and a = "Fin 100"] decoded_entry_100
        tax_100 total_100)
qed

text \<open>
  C9: \<open>getOrder\<close> answers 400 for an order id that does not match
  \<open>[A-Za-z0-9_-]{1,100}\<close>, the empty one included, and leaves the state as it was: neither
  the cache nor the table has been asked.
\<close>

theorem get_order_validation:
  "\<not> matches_id s \<Longrightarrow>
     status_code (fst (get_order h s w)) = 400 \<and> snd (get_order h s w) = w"
  using id_checks [of s] by (auto simp: get_order_def)

text \<open>Witness for C9: the order ids \<open>bad id!\<close> and the empty string.\<close>

theorem get_order_validation_witness:
  "\<not> matches_id ''bad id!''
   \<and> status_code (fst (get_order (example_host []) ''bad id!'' empty_world)) = 400
   \<and> snd (get_order (example_host []) ''bad id!'' empty_world) = empty_world
   \<and> \<not> matches_id ''''
   \<and> status_code (fst (get_order (example_host []) '''' empty_world)) = 400"
proof -
  have b: "\<not> matches_id ''bad id!''" "\<not> matches_id ''''"
    by (simp_all add: id_eval)
  from get_order_validation [OF b(1), of "example_host []" empty_world]
    get_order_validation [OF b(2), of "example_host []" empty_world] b
  show ?thesis by simp
qed

text \<open>
  C10: when the worker processes an entry whose order id already has a row, and the
  upsert succeeds, the row afterwards is the old row with \<open>amount\<close>, \<open>tax\<close>, \<open>total\<close>,
  \<open>status\<close>, \<open>processed_at\<close> and \<open>updated_at\<close> overwritten; its \<open>id\<close> and its
  \<open>created_at\<close> are those of the old row, and no row is added.
\<close>

theorem reprocessing_overwrites_six_columns:
  assumes "decoded fs = Some (k, a)" and "\<not> fails h (io w)"
    and "find_row k (orders w) = Some r"
  shows "find_row k (orders (snd (process_message h (i, fs) c w)))
         = Some (r\<lparr>amount := a, tax := compute_tax a,
                   total := compute_total a (compute_tax a), status := completed,
                   processed_at := Some (now h w), updated_at := now h w\<rparr>)
       \<and> map_option row_id (find_row k (orders (snd (process_message h (i, fs) c w))))
           = Some (row_id r)
       \<and> map_option created_at (find_row k (orders (snd (process_message h (i, fs) c w))))
           = Some (created_at r)
       \<and> length (orders (snd (process_message h (i, fs) c w))) = length (orders w)"
  using assms
  by (simp add: orders_process_message_decoded find_row_upsert_row_same length_upsert_row)

text \<open>Witness for C10: \<open>ord-1\<close> processed a second time keeps \<open>id\<close> 1 and its \<open>created_at\<close>.\<close>

theorem reprocessing_overwrites_six_columns_witness:
  "decoded (entry ''ord-1'' ''100'') = Some (''ord-1'', Fin 100)
   \<and> \<not> fails (example_host []) (io delivered_once)
   \<and> find_row ''ord-1'' (orders delivered_once) =
       Some \<lparr>row_id = 1, order_id = ''ord-1'', amount = Fin 100, tax = Fin 18, total = Fin 118,
         status = completed, created_at = 1704067200, updated_at = 1704067200,
         processed_at = Some 1704067200\<rparr>
   \<and> find_row ''ord-1'' (orders delivered_twice) =
       Some \<lparr>row_id = 1, order_id = ''ord-1'', amount = Fin 100, tax = Fin 18, total = Fin 118,
         status = completed, created_at = 1704067200, updated_at = 1704067202,
         processed_at = Some 1704067202\<rparr>"
proof -
  have d: "decoded (entry ''ord-1'' ''100'') = Some (''ord-1'', Fin 100)"
    by (simp add: decoded_entry_100)
  have f: "\<not> fails (example_host []) (io delivered_once)"
    by (simp add: fails_example_host)
  have r: "find_row ''ord-1'' (orders delivered_once) =
       Some \<lparr>row_id = 1, order_id = ''ord-1'', amount = Fin 100, tax = Fin 18, total = Fin 118,
         status = completed, created_at = 1704067200, updated_at = 1704067200,
         processed_at = Some 1704067200\<rparr>"
    by (simp add: delivered_once_orders)
  from reprocessing_overwrites_six_columns [where h = "example_host []" and i = 0 and c = 0,
      OF d f r] d f r
  show ?thesis
    by (simp add: delivered_twice_def now_def clock_example_host delivered_once_io tax_100 total_100)
qed

end
